theory Spec2Isabelle
  imports Complex_Main
begin

section \<open>Platform values: errors, strings of numbers, the key-value store\<close>

text \<open>
  The two components of the portal, \<^verbatim>\<open>AccessControl.tsx\<close> and \<^verbatim>\<open>VideoPlayer.tsx\<close>, are
  embedded as state-passing functions. JavaScript strings are \<^typ>\<open>string\<close>: one
  \<^typ>\<open>char\<close> per code unit of the Latin-1 range. Epoch milliseconds are \<^typ>\<open>int\<close>:
  time values are whole numbers of magnitude at most 8.64e15, where the arithmetic of
  doubles is exact. An exception is a value of \<open>js_error\<close>.
\<close>

datatype js_error = SecurityError | TypeError | SyntaxError

text \<open>A statement list either completes or throws, in both cases with the state reached.\<close>

datatype 'a completion = Normal 'a | Throw js_error 'a

subsection \<open>\<^verbatim>\<open>Number.prototype.toString\<close> on whole numbers\<close>

definition digit_char :: "nat \<Rightarrow> char" where
  "digit_char d = ''0123456789'' ! d"

fun digits_of :: "nat \<Rightarrow> string" where
  "digits_of n = (if n < 10 then [digit_char n] else digits_of (n div 10) @ [digit_char (n mod 10)])"

declare digits_of.simps [simp del]

text \<open>
  The decimal rendering JavaScript gives every whole number of magnitude below 1e21,
  which covers every time value.
\<close>

definition Number_toString :: "int \<Rightarrow> string" where
  "Number_toString i = (if i < 0 then CHR ''-'' # digits_of (nat (- i)) else digits_of (nat i))"

subsection \<open>\<^verbatim>\<open>parseInt\<close> with no radix argument\<close>

definition isWhiteSpace :: "char \<Rightarrow> bool" where
  "isWhiteSpace c = ((of_char c :: nat) \<in> {9, 10, 11, 12, 13, 32, 160})"

definition digitValue :: "char \<Rightarrow> nat option" where
  "digitValue c =
     (let n = (of_char c :: nat)
      in if 48 \<le> n \<and> n \<le> 57 then Some (n - 48)
         else if 97 \<le> n \<and> n \<le> 122 then Some (n - 87)
         else if 65 \<le> n \<and> n \<le> 90 then Some (n - 55)
         else None)"

definition isRadixDigit :: "nat \<Rightarrow> char \<Rightarrow> bool" where
  "isRadixDigit R c = (case digitValue c of None \<Rightarrow> False | Some d \<Rightarrow> d < R)"

definition radixValue :: "nat \<Rightarrow> string \<Rightarrow> nat" where
  "radixValue R Z = foldl (\<lambda>acc c. case digitValue c of None \<Rightarrow> acc | Some d \<Rightarrow> acc * R + d) 0 Z"

text \<open>
  \<open>None\<close> is \<^verbatim>\<open>NaN\<close>. Leading white space is dropped, one sign is read, a
  \<^verbatim>\<open>0x\<close> prefix selects radix 16, and the longest run of digits is the number;
  whatever follows the digits is ignored.
\<close>

definition parseDigits :: "string \<Rightarrow> nat option" where
  "parseDigits S1 =
     (let hex = (take 2 S1 = ''0x'' \<or> take 2 S1 = ''0X'');
          R = (if hex then 16 else 10);
          S2 = (if hex then drop 2 S1 else S1);
          Z = takeWhile (isRadixDigit R) S2
      in if Z = [] then None else Some (radixValue R Z))"

definition parseInt :: "string \<Rightarrow> int option" where
  "parseInt inputString =
     (let S = dropWhile isWhiteSpace inputString;
          sign = (if S \<noteq> [] \<and> hd S = CHR ''-'' then - 1 else 1 :: int);
          S1 = (if S \<noteq> [] \<and> (hd S = CHR ''+'' \<or> hd S = CHR ''-'') then tl S else S)
      in case parseDigits S1 of
           None \<Rightarrow> None
         | Some mathInt \<Rightarrow> Some (sign * int mathInt))"

subsection \<open>\<^verbatim>\<open>window.localStorage\<close>\<close>

text \<open>
  The store maps string keys to string values. When the browser blocks storage every
  access throws; \<open>setItem_log\<close> lists the successful \<^verbatim>\<open>setItem\<close> calls, oldest
  first, so that writes can be counted.
\<close>

record local_storage =
  items :: "string \<rightharpoonup> string"
  available :: bool
  setItem_log :: "(string \<times> string) list"

definition getItem :: "local_storage \<Rightarrow> string \<Rightarrow> js_error + string option" where
  "getItem ls k = (if available ls then Inr (items ls k) else Inl SecurityError)"

definition setItem :: "local_storage \<Rightarrow> string \<Rightarrow> string \<Rightarrow> js_error + local_storage" where
  "setItem ls k v =
     (if available ls
      then Inr (ls\<lparr>items := (items ls)(k \<mapsto> v), setItem_log := setItem_log ls @ [(k, v)]\<rparr>)
      else Inl SecurityError)"

subsection \<open>\<^verbatim>\<open>parseFloat\<close>\<close>

text \<open>
  A JavaScript number is a double. The finite ones are the reals \<open>m * 2 ^ e\<close> with
  \<open>m\<close> of magnitude below \<open>2 ^ 53\<close> and \<open>e\<close> from -1074 to 971; a finite number is
  modelled by the real it stands for.
\<close>

datatype js_number = NaN | PosInfinity | NegInfinity | Finite real

definition is_double :: "real \<Rightarrow> bool" where
  "is_double x = (\<exists>m e. x = real_of_int m * 2 powi e \<and> \<bar>m\<bar> < 2 ^ 53 \<and> - 1074 \<le> e \<and> e \<le> 971)"

definition round_half_even :: "real \<Rightarrow> int" where
  "round_half_even q =
     (let f = \<lfloor>q\<rfloor>
      in if q - real_of_int f < 1 / 2 then f
         else if 1 / 2 < q - real_of_int f then f + 1
         else if even f then f else f + 1)"

text \<open>
  The number value of a mathematical value that is not negative: the nearest double,
  ties to even, and infinity from the midpoint above the largest double on. The
  exponent of the last place is that of a significand of 53 bits, and not below -1074.
  (For a literal of more than 20 significant digits the language allows an implementation
  to round less exactly; the rounding here is the exact one.)
\<close>

definition RoundMVResult :: "real \<Rightarrow> js_number" where
  "RoundMVResult a =
     (if a = 0 then Finite 0
      else if 2 ^ 1024 - 2 ^ 970 \<le> a then PosInfinity
      else (let p = max (\<lfloor>log 2 a\<rfloor> - 52) (- 1074)
            in Finite (real_of_int (round_half_even (a / 2 powi p)) * 2 powi p)))"

fun negate :: "js_number \<Rightarrow> js_number" where
  "negate NaN = NaN"
| "negate PosInfinity = NegInfinity"
| "negate NegInfinity = PosInfinity"
| "negate (Finite x) = Finite (- x)"

definition isDecimalDigit :: "char \<Rightarrow> bool" where
  "isDecimalDigit c = (48 \<le> (of_char c :: nat) \<and> (of_char c :: nat) \<le> 57)"

definition scale10 :: "real \<Rightarrow> int \<Rightarrow> real" where
  "scale10 x e = (if 0 \<le> e then x * 10 ^ nat e else x / 10 ^ nat (- e))"

text \<open>The exponent part at the head of a string, if there is one: \<^verbatim>\<open>e\<close>, a sign, digits.\<close>

definition parseExponent :: "string \<Rightarrow> int" where
  "parseExponent S =
     (if S \<noteq> [] \<and> (hd S = CHR ''e'' \<or> hd S = CHR ''E'')
      then (let S1 = tl S;
                neg = (S1 \<noteq> [] \<and> hd S1 = CHR ''-'');
                S2 = (if S1 \<noteq> [] \<and> (hd S1 = CHR ''+'' \<or> hd S1 = CHR ''-'') then tl S1 else S1);
                ds = takeWhile isDecimalDigit S2
            in if ds = [] then 0
               else if neg then - int (radixValue 10 ds) else int (radixValue 10 ds))
      else 0)"

text \<open>
  The longest prefix that is an unsigned decimal literal: digits, an optional point with
  digits, an optional exponent; at least one digit before or after the point. The result
  is the mathematical value of the literal.
\<close>

definition parseUnsignedDecimal :: "string \<Rightarrow> real option" where
  "parseUnsignedDecimal S =
     (let ip = takeWhile isDecimalDigit S;
          r1 = dropWhile isDecimalDigit S;
          dot = (r1 \<noteq> [] \<and> hd r1 = CHR ''.'');
          fp = (if dot then takeWhile isDecimalDigit (tl r1) else []);
          r2 = (if dot then dropWhile isDecimalDigit (tl r1) else r1)
      in if ip = [] \<and> fp = [] then None
         else Some (scale10 (real (radixValue 10 ip) + real (radixValue 10 fp) / 10 ^ length fp)
                            (parseExponent r2)))"

definition parseFloat :: "string \<Rightarrow> js_number" where
  "parseFloat inputString =
     (let S = dropWhile isWhiteSpace inputString;
          neg = (S \<noteq> [] \<and> hd S = CHR ''-'');
          S1 = (if S \<noteq> [] \<and> (hd S = CHR ''+'' \<or> hd S = CHR ''-'') then tl S else S)
      in if take 8 S1 = ''Infinity'' then (if neg then NegInfinity else PosInfinity)
         else (case parseUnsignedDecimal S1 of
                 None \<Rightarrow> NaN
               | Some mv \<Rightarrow> if neg then negate (RoundMVResult mv) else RoundMVResult mv))"

subsection \<open>\<^verbatim>\<open>Number.prototype.toString\<close> on doubles\<close>

text \<open>
  The language fixes the digits of a positive number \<open>x\<close> by a condition, not by an
  algorithm: integers \<open>n\<close>, \<open>k\<close> and \<open>s\<close> with \<open>k\<close> at least 1, \<open>s\<close> of exactly
  \<open>k\<close> digits, the number value of \<open>s * 10 ^ (n - k)\<close> equal to \<open>x\<close>, and \<open>k\<close> as
  small as possible.
\<close>

definition digits_for :: "real \<Rightarrow> int \<Rightarrow> nat \<Rightarrow> nat \<Rightarrow> bool" where
  "digits_for x n k s =
     (1 \<le> k \<and> 10 ^ (k - 1) \<le> s \<and> s < 10 ^ k
      \<and> RoundMVResult (scale10 (real s) (n - int k)) = Finite x)"

definition shortest_digits :: "real \<Rightarrow> int \<Rightarrow> nat \<Rightarrow> nat \<Rightarrow> bool" where
  "shortest_digits x n k s =
     (digits_for x n k s \<and> \<not> (\<exists>n' k' s'. digits_for x n' k' s' \<and> k' < k))"

text \<open>
  The string of the digits: plain decimal notation for \<open>n\<close> from -5 to 21, scientific
  notation otherwise.
\<close>

definition format_number :: "int \<Rightarrow> nat \<Rightarrow> nat \<Rightarrow> string" where
  "format_number n k s =
     (let ds = digits_of s
      in if - 5 \<le> n \<and> n \<le> 21
         then (if int k \<le> n then ds @ replicate (nat (n - int k)) CHR ''0''
               else if 0 < n then take (nat n) ds @ ''.'' @ drop (nat n) ds
               else ''0.'' @ replicate (nat (- n)) CHR ''0'' @ ds)
         else (let e = n - 1;
                   exponentSign = (if e < 0 then ''-'' else ''+'');
                   es = digits_of (nat \<bar>e\<bar>)
               in if k = 1 then ds @ ''e'' @ exponentSign @ es
                  else take 1 ds @ ''.'' @ drop 1 ds @ ''e'' @ exponentSign @ es))"

text \<open>The strings the language allows for a finite number.\<close>

definition Number_toString_double :: "real \<Rightarrow> string \<Rightarrow> bool" where
  "Number_toString_double x str =
     (if x = 0 then str = ''0''
      else if x < 0 then (\<exists>n k s. shortest_digits (- x) n k s \<and> str = CHR ''-'' # format_number n k s)
      else (\<exists>n k s. shortest_digits x n k s \<and> str = format_number n k s))"

subsection \<open>\<^verbatim>\<open>btoa\<close>\<close>

definition base64_alphabet :: string where
  "base64_alphabet = ''ABCDEFGHIJKLMNOPQRSTUVWXYZabcdefghijklmnopqrstuvwxyz0123456789+/''"

definition b64 :: "nat \<Rightarrow> char" where
  "b64 n = base64_alphabet ! n"

text \<open>
  Base64 with padding: three code units make a number of 24 bits, whose four groups of six
  bits are looked up in the alphabet.
\<close>

fun btoa :: "string \<Rightarrow> string" where
  "btoa (a # b # c # rest) =
     (let n = (of_char a :: nat) * 65536 + of_char b * 256 + of_char c
      in [b64 (n div 262144), b64 (n div 4096 mod 64), b64 (n div 64 mod 64), b64 (n mod 64)]
         @ btoa rest)"
| "btoa [a, b] =
     (let n = (of_char a :: nat) * 65536 + of_char b * 256
      in [b64 (n div 262144), b64 (n div 4096 mod 64), b64 (n div 64 mod 64), CHR ''=''])"
| "btoa [a] =
     (let n = (of_char a :: nat) * 65536
      in [b64 (n div 262144), b64 (n div 4096 mod 64), CHR ''='', CHR ''=''])"
| "btoa [] = []"

subsection \<open>Addresses and JSON values\<close>

text \<open>
  A parsed address: origin, path and the decoded query pairs in order. The fragment
  plays no part in either component.
\<close>

record URL =
  origin :: string
  pathname :: string
  searchParams :: "(string \<times> string) list"

text \<open>\<^verbatim>\<open>URLSearchParams.get\<close>: the value of the first pair with the name.\<close>

definition searchParams_get :: "(string \<times> string) list \<Rightarrow> string \<Rightarrow> string option" where
  "searchParams_get ps name = map_of ps name"

text \<open>
  \<^verbatim>\<open>URLSearchParams.set\<close>: the first pair with the name takes the value and the others
  are removed; with no such pair, one is appended.
\<close>

fun searchParams_set :: "(string \<times> string) list \<Rightarrow> string \<Rightarrow> string \<Rightarrow> (string \<times> string) list" where
  "searchParams_set [] name v = [(name, v)]"
| "searchParams_set (p # ps) name v =
     (if fst p = name then (name, v) # filter (\<lambda>q. fst q \<noteq> name) ps
      else p # searchParams_set ps name v)"

text \<open>A parsed JSON body; an object lists each of its properties once.\<close>

datatype json =
    JNull
  | JBool bool
  | JNumber real
  | JString string
  | JArray "json list"
  | JObject "(string \<times> json) list"

text \<open>
  Reading a property: \<open>None\<close> is \<^verbatim>\<open>undefined\<close>; reading from \<^verbatim>\<open>null\<close> throws. The
  three names the gate reads are not properties of strings, numbers, booleans or arrays.
\<close>

fun property :: "json \<Rightarrow> string \<Rightarrow> js_error + json option" where
  "property JNull name = Inl TypeError"
| "property (JObject props) name = Inr (map_of props name)"
| "property (JBool b) name = Inr None"
| "property (JNumber x) name = Inr None"
| "property (JString s) name = Inr None"
| "property (JArray xs) name = Inr None"

fun ToBoolean :: "json option \<Rightarrow> bool" where
  "ToBoolean None = False"
| "ToBoolean (Some JNull) = False"
| "ToBoolean (Some (JBool b)) = b"
| "ToBoolean (Some (JNumber x)) = (x \<noteq> 0)"
| "ToBoolean (Some (JString s)) = (s \<noteq> [])"
| "ToBoolean (Some (JArray xs)) = True"
| "ToBoolean (Some (JObject props)) = True"

text \<open>
  What the shortener call comes to: \<^verbatim>\<open>fetch\<close> rejects (network failure),
  \<^verbatim>\<open>response.json()\<close> rejects (the body is not JSON), or a body is parsed.
\<close>

datatype fetch_outcome = FetchRejected | JsonRejected | Body json

text \<open>
  The value assigned to \<^verbatim>\<open>window.location.href\<close>: a value taken from the response, or
  the serialised return address.
\<close>

datatype href = Href_value json | Href_url URL

record api_request =
  api_param :: string
  url_param :: URL
  alias_param :: string

section \<open>Access gate (\<^verbatim>\<open>AccessControl.tsx\<close>)\<close>

definition dayInMs :: int where
  "dayInMs = 24 * 60 * 60 * 1000"

text \<open>
  \<^verbatim>\<open>checkAccess\<close>: the \<^verbatim>\<open>try\<close> block reads the grant, returns false on a missing or
  empty string, parses it and compares ages; a comparison with \<^verbatim>\<open>NaN\<close> is false; the
  \<^verbatim>\<open>catch\<close> block returns false.
\<close>

definition checkAccess :: "local_storage \<Rightarrow> int \<Rightarrow> bool" where
  "checkAccess ls now =
     (case getItem ls ''access_granted'' of
        Inl error \<Rightarrow> False
      | Inr None \<Rightarrow> False
      | Inr (Some accessGranted) \<Rightarrow>
          if accessGranted = [] then False
          else (case parseInt accessGranted of
                  None \<Rightarrow> False
                | Some accessTime \<Rightarrow> now - accessTime < dayInMs))"

text \<open>
  The component: its three \<^verbatim>\<open>useState\<close> cells, the \<^verbatim>\<open>homepageUrl\<close> property (an
  absolute address, as \<^verbatim>\<open>new URL\<close> requires), and the parts of the window it touches:
  the store, the address bar, the pending \<^verbatim>\<open>setTimeout\<close> delays (each callback is
  \<^verbatim>\<open>redirectToShortener\<close>), the shortener requests sent and the pending navigation.
\<close>

record gate =
  hasAccess :: bool
  isChecking :: bool
  isRedirecting :: bool
  mounted :: bool
  homepageUrl :: URL
  localStorage :: local_storage
  location :: URL
  timeouts :: "nat list"
  requests :: "api_request list"
  location_href :: "href option"

definition AccessControl :: "URL \<Rightarrow> local_storage \<Rightarrow> URL \<Rightarrow> gate" where
  "AccessControl hp ls loc =
     \<lparr>hasAccess = False, isChecking = True, isRedirecting = False, mounted = True,
      homepageUrl = hp, localStorage = ls, location = loc,
      timeouts = [], requests = [], location_href = None\<rparr>"

datatype view = CheckingView | AccessRequiredView | ChildrenView

definition render :: "gate \<Rightarrow> view" where
  "render s = (if isChecking s then CheckingView
               else if \<not> hasAccess s then AccessRequiredView
               else ChildrenView)"

text \<open>\<^verbatim>\<open>returnUrl\<close>: the homepage address with the marker set.\<close>

definition returnUrl :: "gate \<Rightarrow> URL" where
  "returnUrl s =
     (homepageUrl s)\<lparr>searchParams := searchParams_set (searchParams (homepageUrl s)) ''from_shortener'' ''true''\<rparr>"

definition finally_block :: "gate completion \<Rightarrow> gate completion" where
  "finally_block r =
     (case r of
        Normal s \<Rightarrow> Normal (s\<lparr>isRedirecting := False\<rparr>)
      | Throw e s \<Rightarrow> Throw e (s\<lparr>isRedirecting := False\<rparr>))"

subsection \<open>\<^verbatim>\<open>redirectToShortener\<close> of \<^verbatim>\<open>src/components/AccessControl.tsx\<close>\<close>

text \<open>
  The function is asynchronous: \<open>redirect_request\<close> is the \<^verbatim>\<open>try\<close> block up to the
  \<^verbatim>\<open>await\<close> of \<^verbatim>\<open>fetch\<close>, \<open>redirect_response\<close> the rest of it with the
  \<^verbatim>\<open>catch\<close> and \<^verbatim>\<open>finally\<close> blocks, run when the call has come to an outcome.
\<close>

definition redirect_request :: "int \<Rightarrow> gate \<Rightarrow> gate" where
  "redirect_request now s =
     s\<lparr>isRedirecting := True,
       requests := requests s @
         [\<lparr>api_param = ''ad3ce711eb354d522cbac856b0dfa149b6c71e43'',
           url_param = returnUrl s,
           alias_param = ''ms'' @ Number_toString now\<rparr>]\<rparr>"

definition redirect_directly :: "gate \<Rightarrow> gate" where
  "redirect_directly s = s\<lparr>location_href := Some (Href_url (returnUrl s))\<rparr>"

definition try_block :: "fetch_outcome \<Rightarrow> gate \<Rightarrow> gate completion" where
  "try_block outcome s =
     (case outcome of
        FetchRejected \<Rightarrow> Throw TypeError s
      | JsonRejected \<Rightarrow> Throw SyntaxError s
      | Body data \<Rightarrow>
          (case property data ''status'' of
             Inl e \<Rightarrow> Throw e s
           | Inr status \<Rightarrow>
               if status = Some (JString ''success'')
               then (case property data ''shortenedUrl'' of
                       Inl e \<Rightarrow> Throw e s
                     | Inr shortenedUrl \<Rightarrow>
                         if ToBoolean shortenedUrl
                         then Normal (s\<lparr>location_href := map_option Href_value shortenedUrl\<rparr>)
                         else Normal (redirect_directly s))
               else Normal (redirect_directly s)))"

definition catch_block :: "gate completion \<Rightarrow> gate completion" where
  "catch_block r =
     (case r of
        Normal s \<Rightarrow> Normal s
      | Throw e s \<Rightarrow> Normal (redirect_directly s))"

definition redirect_response :: "fetch_outcome \<Rightarrow> gate \<Rightarrow> gate completion" where
  "redirect_response outcome s = finally_block (catch_block (try_block outcome s))"

definition redirectToShortener :: "fetch_outcome \<Rightarrow> int \<Rightarrow> gate \<Rightarrow> gate completion" where
  "redirectToShortener outcome now s = redirect_response outcome (redirect_request now s)"

subsection \<open>\<^verbatim>\<open>redirectToShortener\<close> of the second copy of the component (\<^verbatim>\<open>part_002\<close>)\<close>

definition redirect_request_002 :: "gate \<Rightarrow> gate" where
  "redirect_request_002 s =
     s\<lparr>isRedirecting := True,
       requests := requests s @
         [\<lparr>api_param = ''ad3ce711eb354d522cbac856b0dfa149b6c71e43'',
           url_param = returnUrl s,
           alias_param = ''auto''\<rparr>]\<rparr>"

text \<open>The fallback of this copy: write a grant and set \<^verbatim>\<open>hasAccess\<close>.\<close>

definition grant_locally :: "int \<Rightarrow> gate \<Rightarrow> gate completion" where
  "grant_locally now s =
     (case setItem (localStorage s) ''access_granted'' (Number_toString now) of
        Inl e \<Rightarrow> Throw e s
      | Inr ls \<Rightarrow> Normal (s\<lparr>localStorage := ls, hasAccess := True\<rparr>))"

definition try_block_002 :: "fetch_outcome \<Rightarrow> int \<Rightarrow> gate \<Rightarrow> gate completion" where
  "try_block_002 outcome now s =
     (case outcome of
        FetchRejected \<Rightarrow> Throw TypeError s
      | JsonRejected \<Rightarrow> Throw SyntaxError s
      | Body data \<Rightarrow>
          (case property data ''shortenedUrl'' of
             Inl e \<Rightarrow> Throw e s
           | Inr shortenedUrl \<Rightarrow>
               if ToBoolean shortenedUrl
               then Normal (s\<lparr>location_href := map_option Href_value shortenedUrl\<rparr>)
               else (case property data ''shorturl'' of
                       Inl e \<Rightarrow> Throw e s
                     | Inr shorturl \<Rightarrow>
                         if ToBoolean shorturl
                         then Normal (s\<lparr>location_href := map_option Href_value shorturl\<rparr>)
                         else grant_locally now s)))"

definition catch_block_002 :: "int \<Rightarrow> gate completion \<Rightarrow> gate completion" where
  "catch_block_002 now r =
     (case r of
        Normal s \<Rightarrow> Normal s
      | Throw e s \<Rightarrow> grant_locally now s)"

definition redirect_response_002 :: "fetch_outcome \<Rightarrow> int \<Rightarrow> gate \<Rightarrow> gate completion" where
  "redirect_response_002 outcome now s =
     finally_block (catch_block_002 now (try_block_002 outcome now s))"

definition redirectToShortener_002 :: "fetch_outcome \<Rightarrow> int \<Rightarrow> gate \<Rightarrow> gate completion" where
  "redirectToShortener_002 outcome now s = redirect_response_002 outcome now (redirect_request_002 s)"

subsection \<open>The mount effect, the same in both copies\<close>

text \<open>
  \<^verbatim>\<open>history.replaceState\<close> with \<^verbatim>\<open>location.pathname\<close> leaves origin and path and
  drops the query. The effect returns no cleanup function.
\<close>

definition useEffect :: "int \<Rightarrow> gate \<Rightarrow> gate completion" where
  "useEffect now s =
     (let fromShortener = searchParams_get (searchParams (location s)) ''from_shortener''
      in if fromShortener = Some ''true''
         then (case setItem (localStorage s) ''access_granted'' (Number_toString now) of
                 Inl e \<Rightarrow> Throw e s
               | Inr ls \<Rightarrow>
                   Normal (s\<lparr>localStorage := ls, hasAccess := True, isChecking := False,
                             location := (location s)\<lparr>searchParams := []\<rparr>\<rparr>))
         else (let accessValid = checkAccess (localStorage s) now
               in Normal (s\<lparr>hasAccess := accessValid, isChecking := False,
                            timeouts := (if \<not> accessValid then timeouts s @ [2000] else timeouts s)\<rparr>)))"

text \<open>Unmounting runs the cleanup functions of the effects; this component has none.\<close>

definition unmount :: "gate \<Rightarrow> gate" where
  "unmount s = s\<lparr>mounted := False\<rparr>"

text \<open>
  The oldest pending timeout fires and runs its callback, the component's
  \<^verbatim>\<open>redirectToShortener\<close>, given here as \<open>callback\<close>.
\<close>

definition timeout_fires :: "(gate \<Rightarrow> gate completion) \<Rightarrow> gate \<Rightarrow> gate completion" where
  "timeout_fires callback s =
     (case timeouts s of
        [] \<Rightarrow> Normal s
      | delay # pending \<Rightarrow> callback (s\<lparr>timeouts := pending\<rparr>))"

text \<open>The button of the access-required view, disabled while a redirect is under way.\<close>

definition onClick :: "(gate \<Rightarrow> gate completion) \<Rightarrow> gate \<Rightarrow> gate completion" where
  "onClick callback s =
     (if render s = AccessRequiredView \<and> \<not> isRedirecting s then callback s else Normal s)"

text \<open>Loading an address anew: a fresh component over the same store.\<close>

definition reload :: "gate \<Rightarrow> gate" where
  "reload s = AccessControl (homepageUrl s) (localStorage s) (location s)"

fun state_of :: "'a completion \<Rightarrow> 'a" where
  "state_of (Normal s) = s"
| "state_of (Throw e s) = s"

section \<open>Playback controller (\<^verbatim>\<open>VideoPlayer.tsx\<close>)\<close>

text \<open>
  Of the media element the component reads \<^verbatim>\<open>currentTime\<close> and assigns to it. An
  assignment of a number that is not finite throws; what the element does with a finite
  one (its own seek steps) is outside the component, the field keeps the value assigned.
\<close>

record video_element =
  video_currentTime :: real

definition set_currentTime :: "js_number \<Rightarrow> video_element \<Rightarrow> js_error + video_element" where
  "set_currentTime x video =
     (case x of
        Finite t \<Rightarrow> Inr (video\<lparr>video_currentTime := t\<rparr>)
      | NaN \<Rightarrow> Inl TypeError
      | PosInfinity \<Rightarrow> Inl TypeError
      | NegInfinity \<Rightarrow> Inl TypeError)"

record player =
  url :: string
  videoRef :: "video_element option"
  currentTime :: real
  duration :: real
  storage :: local_storage

definition videoId :: "string \<Rightarrow> string" where
  "videoId u = take 20 (btoa u)"

definition progress_key :: "string \<Rightarrow> string" where
  "progress_key u = ''video_progress_'' @ videoId u"

text \<open>The first statements of the mount effect: load the saved progress.\<close>

definition load_saved_progress :: "player \<Rightarrow> player completion" where
  "load_saved_progress p =
     (case videoRef p of
        None \<Rightarrow> Normal p
      | Some video \<Rightarrow>
          (case getItem (storage p) (progress_key (url p)) of
             Inl e \<Rightarrow> Throw e p
           | Inr None \<Rightarrow> Normal p
           | Inr (Some savedProgress) \<Rightarrow>
               if savedProgress = [] then Normal p
               else (case set_currentTime (parseFloat savedProgress) video of
                       Inl e \<Rightarrow> Throw e p
                     | Inr video' \<Rightarrow> Normal (p\<lparr>videoRef := Some video'\<rparr>))))"

text \<open>
  \<^verbatim>\<open>handleTimeUpdate\<close>. The rendering of a double as a string is the platform's and
  is a parameter, \<open>toString\<close>. \<^verbatim>\<open>Math.floor(x) % 5 === 0\<close> holds exactly when 5 divides
  the floor, whatever the sign.
\<close>

definition handleTimeUpdate :: "(real \<Rightarrow> string) \<Rightarrow> player \<Rightarrow> player completion" where
  "handleTimeUpdate toString p =
     (case videoRef p of
        None \<Rightarrow> Normal p
      | Some video \<Rightarrow>
          (let p1 = p\<lparr>currentTime := video_currentTime video\<rparr>
           in if \<lfloor>video_currentTime video\<rfloor> mod 5 = 0
              then (case setItem (storage p1) (progress_key (url p1)) (toString (video_currentTime video)) of
                      Inl e \<Rightarrow> Throw e p1
                    | Inr ls \<Rightarrow> Normal (p1\<lparr>storage := ls\<rparr>))
              else Normal p1))"

text \<open>A time-update event: the element has moved to position \<open>t\<close> and the handler runs.\<close>

definition timeupdate :: "(real \<Rightarrow> string) \<Rightarrow> real \<Rightarrow> player \<Rightarrow> player completion" where
  "timeupdate toString t p =
     handleTimeUpdate toString (p\<lparr>videoRef := map_option (\<lambda>video. video\<lparr>video_currentTime := t\<rparr>) (videoRef p)\<rparr>)"

fun playback :: "(real \<Rightarrow> string) \<Rightarrow> real list \<Rightarrow> player \<Rightarrow> player" where
  "playback toString [] p = p"
| "playback toString (t # ts) p = playback toString ts (state_of (timeupdate toString t p))"

text \<open>
  \<^verbatim>\<open>handleSeek\<close>. With a track of width 0 the quotient is not finite and the
  assignment to \<^verbatim>\<open>currentTime\<close> throws before the state is set.
\<close>

record mouse_event =
  clientX :: real
  rect_left :: real
  rect_width :: real

definition handleSeek :: "mouse_event \<Rightarrow> player \<Rightarrow> player completion" where
  "handleSeek e p =
     (case videoRef p of
        None \<Rightarrow> Normal p
      | Some video \<Rightarrow>
          if duration p = 0 then Normal p
          else (let clickX = clientX e - rect_left e;
                    width = rect_width e
                in if width = 0 then Throw TypeError p
                   else (let newTime = (clickX / width) * duration p
                         in Normal (p\<lparr>videoRef := Some (video\<lparr>video_currentTime := newTime\<rparr>),
                                      currentTime := newTime\<rparr>))))"

text \<open>
  \<^verbatim>\<open>Number.prototype.toString\<close> on the positions that are a whole number of hundredths
  of a second, not negative: the whole part, then the point and the hundredths without a
  trailing zero, as in \<^verbatim>\<open>5\<close>, \<^verbatim>\<open>5.5\<close>, \<^verbatim>\<open>5.25\<close>.
\<close>

definition toString_hundredths :: "real \<Rightarrow> string" where
  "toString_hundredths t =
     (let h = nat \<lfloor>t * 100\<rfloor>;
          f = h mod 100
      in digits_of (h div 100) @
         (if f = 0 then []
          else if f mod 10 = 0 then [CHR ''.'', digit_char (f div 10)]
          else [CHR ''.'', digit_char (f div 10), digit_char (f mod 10)]))"

section \<open>Concrete inputs\<close>

abbreviation empty_store :: local_storage where
  "empty_store \<equiv> \<lparr>items = Map.empty, available = True, setItem_log = []\<rparr>"

abbreviation blocked_store :: local_storage where
  "blocked_store \<equiv> \<lparr>items = Map.empty, available = False, setItem_log = []\<rparr>"

abbreviation portal :: URL where
  "portal \<equiv> \<lparr>origin = ''https://mywebsite.com'', pathname = ''/'', searchParams = []\<rparr>"

abbreviation portal_marked :: URL where
  "portal_marked \<equiv>
     \<lparr>origin = ''https://mywebsite.com'', pathname = ''/'', searchParams = [(''from_shortener'', ''true'')]\<rparr>"

text \<open>A first visit, a return from the shortener, and the first visit after its mount effect.\<close>

abbreviation first_visit :: gate where
  "first_visit \<equiv> AccessControl portal empty_store portal"

abbreviation returning_visit :: gate where
  "returning_visit \<equiv> AccessControl portal empty_store portal_marked"

abbreviation denied_visit :: gate where
  "denied_visit \<equiv> state_of (useEffect 0 first_visit)"

text \<open>
  A success response of the shortener, a player on a lecture with its media element and
  60 seconds of duration, the same over a blocked store, and one whose stored progress is
  not a number.
\<close>

abbreviation success_body :: json where
  "success_body \<equiv> JObject [(''status'', JString ''success''), (''shortenedUrl'', JString ''https://vplink.in/a'')]"

abbreviation lecture_player :: player where
  "lecture_player \<equiv>
     \<lparr>url = ''https://example.com/lecture1.m3u8'', videoRef = Some \<lparr>video_currentTime = 0\<rparr>,
      currentTime = 0, duration = 60, storage = empty_store\<rparr>"

abbreviation blocked_player :: player where
  "blocked_player \<equiv>
     \<lparr>url = ''https://example.com/lecture1.m3u8'', videoRef = Some \<lparr>video_currentTime = 0\<rparr>,
      currentTime = 0, duration = 60, storage = blocked_store\<rparr>"

abbreviation corrupt_player :: player where
  "corrupt_player \<equiv>
     \<lparr>url = ''https://example.com/lecture1.m3u8'', videoRef = Some \<lparr>video_currentTime = 0\<rparr>,
      currentTime = 0, duration = 60,
      storage = \<lparr>items = [progress_key ''https://example.com/lecture1.m3u8'' \<mapsto> ''abc''],
                 available = True, setItem_log = []\<rparr>\<rparr>"

text \<open>Time-update events every 250 ms from 0 to 12 seconds.\<close>

abbreviation quarter_seconds :: "real list" where
  "quarter_seconds \<equiv> map (\<lambda>n. real n / 4) [0..<49]"

section \<open>Properties\<close>

subsection \<open>A grant written by the gate reads back as written\<close>

lemma digitValue_digit_char:
  assumes "d < 10"
  shows "digitValue (digit_char d) = Some d"
proof -
  from assms have "d \<in> {0, 1, 2, 3, 4, 5, 6, 7, 8, 9}" by auto
  then show ?thesis by (auto simp: digitValue_def digit_char_def)
qed

lemma isRadixDigit_digit_char: "d < 10 \<Longrightarrow> isRadixDigit 10 (digit_char d)"
  by (simp add: isRadixDigit_def digitValue_digit_char)

lemma digits_of_all: "\<forall>c \<in> set (digits_of n). isRadixDigit 10 c"
proof (induction n rule: digits_of.induct)
  case (1 n)
  show ?case
  proof (cases "n < 10")
    case True
    then show ?thesis by (subst digits_of.simps) (simp add: isRadixDigit_digit_char)
  next
    case False
    with 1 show ?thesis by (subst digits_of.simps) (simp add: isRadixDigit_digit_char)
  qed
qed

lemma radixValue_digits_of: "radixValue 10 (digits_of n) = n"
proof (induction n rule: digits_of.induct)
  case (1 n)
  show ?case
  proof (cases "n < 10")
    case True
    then show ?thesis by (subst digits_of.simps) (simp add: radixValue_def digitValue_digit_char)
  next
    case False
    with 1 show ?thesis by (subst digits_of.simps) (simp add: radixValue_def digitValue_digit_char)
  qed
qed

lemma digits_of_ne: "digits_of n \<noteq> []"
  by (subst digits_of.simps) simp

lemma radix10_not_special:
  assumes "isRadixDigit 10 c"
  shows "\<not> isWhiteSpace c" "c \<noteq> CHR ''-''" "c \<noteq> CHR ''+''" "c \<noteq> CHR ''x''" "c \<noteq> CHR ''X''"
  using assms
  by (auto simp: isRadixDigit_def digitValue_def isWhiteSpace_def Let_def split: if_splits)

lemma parseDigits_decimal:
  assumes "Z \<noteq> []" "\<forall>c \<in> set Z. isRadixDigit 10 c"
  shows "parseDigits Z = Some (radixValue 10 Z)"
proof -
  have "isRadixDigit 10 x" if "take 2 Z = [CHR ''0'', x]" for x
  proof -
    from that have "x \<in> set (take 2 Z)" by simp
    then have "x \<in> set Z" by (rule in_set_takeD)
    with assms(2) show ?thesis by simp
  qed
  then have nohex: "take 2 Z \<noteq> ''0x''" "take 2 Z \<noteq> ''0X''"
    using radix10_not_special(4,5) by blast+
  have tw: "takeWhile (isRadixDigit 10) Z = Z"
    using assms(2) by (simp add: takeWhile_eq_all_conv)
  show ?thesis
    unfolding parseDigits_def Let_def by (simp only: nohex tw assms(1) simp_thms if_False)
qed

lemma parseInt_digits:
  assumes "Z \<noteq> []" "\<forall>c \<in> set Z. isRadixDigit 10 c"
  shows "parseInt Z = Some (int (radixValue 10 Z))"
proof -
  obtain c cs where Z: "Z = c # cs" using assms(1) by (cases Z) auto
  have c: "isRadixDigit 10 c" using assms(2) Z by simp
  have dw: "dropWhile isWhiteSpace Z = Z" using Z radix10_not_special(1)[OF c] by simp
  have hd: "hd Z \<noteq> CHR ''-''" "hd Z \<noteq> CHR ''+''"
    using Z radix10_not_special(2,3)[OF c] by simp_all
  show ?thesis
    unfolding parseInt_def Let_def dw using hd parseDigits_decimal[OF assms] by simp
qed

lemma parseInt_minus_digits:
  assumes "Z \<noteq> []" "\<forall>c \<in> set Z. isRadixDigit 10 c"
  shows "parseInt (CHR ''-'' # Z) = Some (- int (radixValue 10 Z))"
proof -
  have dw: "dropWhile isWhiteSpace (CHR ''-'' # Z) = CHR ''-'' # Z"
    by (simp add: isWhiteSpace_def)
  show ?thesis
    unfolding parseInt_def Let_def dw using parseDigits_decimal[OF assms] by simp
qed

lemma parseInt_Number_toString: "parseInt (Number_toString t) = Some t"
  by (simp add: Number_toString_def parseInt_digits parseInt_minus_digits digits_of_ne
      digits_of_all radixValue_digits_of)

lemma Number_toString_ne: "Number_toString t \<noteq> []"
  by (simp add: Number_toString_def digits_of_ne)

lemma checkAccess_stored:
  assumes "available ls" "items ls ''access_granted'' = Some (Number_toString t)"
  shows "checkAccess ls now = (now - t < dayInMs)"
  using assms
  by (simp add: checkAccess_def getItem_def parseInt_Number_toString Number_toString_ne)

section \<open>The access check\<close>

text \<open>
  Claim C1. For a grant stored as the decimal string of the timestamp \<open>t\<close> and any
  current time \<open>now\<close>, \<^verbatim>\<open>checkAccess\<close> answers true exactly when
  \<open>now - t\<close> is less than 24 hours in milliseconds; at exactly 24 hours the grant counts
  as expired.
\<close>

theorem checkAccess_granted_iff:
  assumes "available ls"
    and "items ls ''access_granted'' = Some (Number_toString t)"
  shows "checkAccess ls now = (now - t < 24 * 60 * 60 * 1000)
         \<and> \<not> checkAccess ls (t + 24 * 60 * 60 * 1000)"
  using checkAccess_stored [OF assms] by (simp add: dayInMs_def)

theorem checkAccess_granted_iff_witness:
  "available \<lparr>items = [''access_granted'' \<mapsto> Number_toString 1000], available = True, setItem_log = []\<rparr>
   \<and> checkAccess \<lparr>items = [''access_granted'' \<mapsto> Number_toString 1000], available = True, setItem_log = []\<rparr> 86400999
   \<and> \<not> checkAccess \<lparr>items = [''access_granted'' \<mapsto> Number_toString 1000], available = True, setItem_log = []\<rparr> 86401000"
  using checkAccess_granted_iff
    [of "\<lparr>items = [''access_granted'' \<mapsto> Number_toString 1000], available = True, setItem_log = []\<rparr>"
        1000 86400999]
  by simp

section \<open>The handshake\<close>

lemma useEffect_handshake:
  assumes "searchParams_get (searchParams (location s)) ''from_shortener'' = Some ''true''"
    and "available (localStorage s)"
  shows "useEffect now s =
     Normal (s\<lparr>localStorage := (localStorage s)\<lparr>items := (items (localStorage s))(''access_granted'' \<mapsto> Number_toString now),
                    setItem_log := setItem_log (localStorage s) @ [(''access_granted'', Number_toString now)]\<rparr>,
               hasAccess := True, isChecking := False,
               location := (location s)\<lparr>searchParams := []\<rparr>\<rparr>)"
  using assms by (simp add: useEffect_def setItem_def)

lemma useEffect_check:
  assumes "searchParams_get (searchParams (location s)) ''from_shortener'' \<noteq> Some ''true''"
  shows "useEffect now s =
     Normal (s\<lparr>hasAccess := checkAccess (localStorage s) now, isChecking := False,
               timeouts := (if \<not> checkAccess (localStorage s) now then timeouts s @ [2000] else timeouts s)\<rparr>)"
  using assms by (simp add: useEffect_def Let_def)

text \<open>
  Whatever grant the store holds (none, a valid one, an expired one), when the first
  \<^verbatim>\<open>from_shortener\<close> of the query at mount is \<^verbatim>\<open>true\<close> and the store accepts the
  write, the mount effect writes a grant equal to the current time, shows the protected
  children, and clears the query of the visible address, so that the marker is gone; a
  reload of that address takes the checking branch, which decides by the age of the grant
  and writes nothing.
\<close>

lemma handshake_with_writable_store:
  assumes "searchParams_get (searchParams (location s)) ''from_shortener'' = Some ''true''"
    and "available (localStorage s)"
  shows "\<exists>s'. useEffect now s = Normal s'
           \<and> items (localStorage s') ''access_granted'' = Some (Number_toString now)
           \<and> hasAccess s' \<and> render s' = ChildrenView
           \<and> origin (location s') = origin (location s)
           \<and> pathname (location s') = pathname (location s)
           \<and> searchParams_get (searchParams (location s')) ''from_shortener'' = None
           \<and> useEffect later (reload s') =
               Normal ((reload s')\<lparr>hasAccess := (later - now < 24 * 60 * 60 * 1000), isChecking := False,
                         timeouts := (if later - now < 24 * 60 * 60 * 1000 then [] else [2000])\<rparr>)"
proof -
  let ?ls = "(localStorage s)\<lparr>items := (items (localStorage s))(''access_granted'' \<mapsto> Number_toString now),
                    setItem_log := setItem_log (localStorage s) @ [(''access_granted'', Number_toString now)]\<rparr>"
  let ?s' = "s\<lparr>localStorage := ?ls, hasAccess := True, isChecking := False,
               location := (location s)\<lparr>searchParams := []\<rparr>\<rparr>"
  have eff: "useEffect now s = Normal ?s'" by (rule useEffect_handshake [OF assms])
  have nomark: "searchParams_get (searchParams (location (reload ?s'))) ''from_shortener'' \<noteq> Some ''true''"
    by (simp add: reload_def AccessControl_def searchParams_get_def)
  have chk: "checkAccess (localStorage (reload ?s')) later = (later - now < dayInMs)"
    by (rule checkAccess_stored) (simp_all add: reload_def AccessControl_def assms(2))
  have again: "useEffect later (reload ?s') =
      Normal ((reload ?s')\<lparr>hasAccess := (later - now < 24 * 60 * 60 * 1000), isChecking := False,
                timeouts := (if later - now < 24 * 60 * 60 * 1000 then [] else [2000])\<rparr>)"
    unfolding useEffect_check [OF nomark] chk
    by (simp add: dayInMs_def reload_def AccessControl_def)
  show ?thesis
    unfolding eff using again
    by (intro exI [of _ ?s']) (simp add: render_def searchParams_get_def)
qed

text \<open>
  Claim C2. With \<^verbatim>\<open>from_shortener=true\<close> in the query the gate is to write the grant,
  show the children and take the marker out of the address, whatever the store held
  before. The write of the handshake stands outside any \<^verbatim>\<open>try\<close>, unlike the read in
  \<^verbatim>\<open>checkAccess\<close>, and here the code fails: on a store that refuses access the effect
  throws before any state is set, so the gate stays on the checking view, access is not
  granted, no grant is stored and the marker stays in the address.
\<close>

theorem handshake_throws_on_blocked_store:
  "useEffect 1000 (AccessControl portal blocked_store portal_marked)
     = Throw SecurityError (AccessControl portal blocked_store portal_marked)
   \<and> render (state_of (useEffect 1000 (AccessControl portal blocked_store portal_marked))) = CheckingView
   \<and> \<not> hasAccess (state_of (useEffect 1000 (AccessControl portal blocked_store portal_marked)))
   \<and> items (localStorage (state_of (useEffect 1000 (AccessControl portal blocked_store portal_marked))))
         ''access_granted'' = None
   \<and> searchParams_get
         (searchParams (location (state_of (useEffect 1000 (AccessControl portal blocked_store portal_marked)))))
         ''from_shortener'' = Some ''true''"
  by (simp add: useEffect_def setItem_def AccessControl_def searchParams_get_def render_def)

section \<open>The redirect flow\<close>

lemma denied_visit_eq:
  "denied_visit =
     \<lparr>hasAccess = False, isChecking = False, isRedirecting = False, mounted = True,
      homepageUrl = portal, localStorage = empty_store, location = portal,
      timeouts = [2000], requests = [], location_href = None\<rparr>"
  by (simp add: useEffect_def Let_def checkAccess_def getItem_def AccessControl_def
      searchParams_get_def)

lemmas redirect_defs =
  redirectToShortener_def redirect_response_def try_block_def catch_block_def
  redirectToShortener_002_def redirect_response_002_def try_block_002_def catch_block_002_def
  grant_locally_def setItem_def finally_block_def redirect_directly_def
  redirect_request_def redirect_request_002_def returnUrl_def render_def

lemma searchParams_get_set: "searchParams_get (searchParams_set ps name v) name = Some v"
  by (induction ps) (auto simp: searchParams_get_def)

lemma returnUrl_marker:
  "searchParams_get (searchParams (returnUrl s)) ''from_shortener'' = Some ''true''"
  by (simp add: returnUrl_def searchParams_get_set)

lemma grant_locally_available:
  assumes "available (localStorage s)"
  shows "grant_locally now s =
     Normal (s\<lparr>localStorage := (localStorage s)\<lparr>items := (items (localStorage s))(''access_granted'' \<mapsto> Number_toString now),
                    setItem_log := setItem_log (localStorage s) @ [(''access_granted'', Number_toString now)]\<rparr>,
               hasAccess := True\<rparr>)"
  using assms by (simp add: grant_locally_def setItem_def)

text \<open>A property read that yields no value: it throws or gives \<^verbatim>\<open>undefined\<close>.\<close>

lemma no_property_cases:
  assumes "\<forall>v. x \<noteq> Inr (Some v)"
  obtains e where "x = Inl e" | "x = Inr None"
proof (cases x)
  case (Inl e)
  then show ?thesis using that by blast
next
  case (Inr b)
  with assms have "b = None" by (cases b) auto
  with Inr show ?thesis using that by blast
qed


lemma try_block_002_failed:
  assumes "outcome = FetchRejected \<or> outcome = JsonRejected
     \<or> (\<exists>data. outcome = Body data
           \<and> (\<forall>v. property data ''shortenedUrl'' \<noteq> Inr (Some v))
           \<and> (\<forall>v. property data ''shorturl'' \<noteq> Inr (Some v)))"
  shows "catch_block_002 now (try_block_002 outcome now s) = grant_locally now s"
proof -
  consider "outcome = FetchRejected" | "outcome = JsonRejected"
    | data where "outcome = Body data" "\<forall>v. property data ''shortenedUrl'' \<noteq> Inr (Some v)"
        "\<forall>v. property data ''shorturl'' \<noteq> Inr (Some v)"
    using assms by blast
  then show ?thesis
  proof cases
    case 1
    then show ?thesis by (simp add: try_block_002_def catch_block_002_def)
  next
    case 2
    then show ?thesis by (simp add: try_block_002_def catch_block_002_def)
  next
    case 3
    from 3(2) show ?thesis
    proof (cases rule: no_property_cases)
      case (1 e)
      with 3 show ?thesis by (simp add: try_block_002_def catch_block_002_def)
    next
      case a: 2
      from 3(3) show ?thesis
      proof (cases rule: no_property_cases)
        case (1 e)
        with 3 a show ?thesis by (simp add: try_block_002_def catch_block_002_def)
      next
        case 2
        with 3 a show ?thesis
          by (simp add: try_block_002_def catch_block_002_def grant_locally_def split: sum.splits)
      qed
    qed
  qed
qed

lemma try_block_failed:
  assumes "outcome = FetchRejected \<or> outcome = JsonRejected
     \<or> (\<exists>data. outcome = Body data
           \<and> (\<forall>v. property data ''shortenedUrl'' \<noteq> Inr (Some v)))"
  shows "catch_block (try_block outcome s) = Normal (redirect_directly s)"
proof -
  consider "outcome = FetchRejected" | "outcome = JsonRejected"
    | data where "outcome = Body data" "\<forall>v. property data ''shortenedUrl'' \<noteq> Inr (Some v)"
    using assms by blast
  then show ?thesis
  proof cases
    case 1
    then show ?thesis by (simp add: try_block_def catch_block_def)
  next
    case 2
    then show ?thesis by (simp add: try_block_def catch_block_def)
  next
    case 3
    from 3(2) show ?thesis
    proof (cases rule: no_property_cases)
      case (1 e)
      with 3 show ?thesis by (simp add: try_block_def catch_block_def split: sum.splits)
    next
      case 2
      with 3 show ?thesis by (simp add: try_block_def catch_block_def split: sum.splits)
    qed
  qed
qed

lemma redirect_002_shortenedUrl:
  assumes "u \<noteq> []" "property data ''shortenedUrl'' = Inr (Some (JString u))"
  shows "redirectToShortener_002 (Body data) now s =
           Normal ((redirect_request_002 s)\<lparr>location_href := Some (Href_value (JString u)), isRedirecting := False\<rparr>)"
  using assms
  by (simp add: redirectToShortener_002_def redirect_response_002_def try_block_002_def
      catch_block_002_def finally_block_def)

lemma redirect_002_shorturl:
  assumes "u \<noteq> []" "\<not> ToBoolean a" "property data ''shortenedUrl'' = Inr a"
    "property data ''shorturl'' = Inr (Some (JString u))"
  shows "redirectToShortener_002 (Body data) now s =
           Normal ((redirect_request_002 s)\<lparr>location_href := Some (Href_value (JString u)), isRedirecting := False\<rparr>)"
  using assms
  by (simp add: redirectToShortener_002_def redirect_response_002_def try_block_002_def
      catch_block_002_def finally_block_def)

lemma redirect_shortenedUrl:
  assumes "u \<noteq> []" "property data ''status'' = Inr (Some (JString ''success''))"
    "property data ''shortenedUrl'' = Inr (Some (JString u))"
  shows "redirectToShortener (Body data) now s =
           Normal ((redirect_request now s)\<lparr>location_href := Some (Href_value (JString u)), isRedirecting := False\<rparr>)"
  using assms
  by (simp add: redirectToShortener_def redirect_response_def try_block_def
      catch_block_def finally_block_def)

lemma redirect_not_shortenedUrl:
  assumes "\<not> ToBoolean a" "property data ''shortenedUrl'' = Inr a"
  shows "redirectToShortener (Body data) now s =
           Normal ((redirect_request now s)\<lparr>location_href := Some (Href_url (returnUrl s)), isRedirecting := False\<rparr>)"
proof -
  have st: "\<exists>st. property data ''status'' = Inr st"
    using assms(2) by (cases data) auto
  then obtain st where st: "property data ''status'' = Inr st" ..
  show ?thesis
    using assms st
    by (simp add: redirectToShortener_def redirect_response_def try_block_def
      catch_block_def finally_block_def redirect_directly_def returnUrl_def redirect_request_def)
qed

lemma redirect_not_success:
  assumes "property data ''status'' = Inr st" "st \<noteq> Some (JString ''success'')"
  shows "redirectToShortener (Body data) now s =
           Normal ((redirect_request now s)\<lparr>location_href := Some (Href_url (returnUrl s)), isRedirecting := False\<rparr>)"
  using assms
    by (simp add: redirectToShortener_def redirect_response_def try_block_def
      catch_block_def finally_block_def redirect_directly_def returnUrl_def redirect_request_def)

text \<open>
  Claim C3, as amended. Take a shortener call that fails (the request is rejected, or the
  body is not JSON) or whose body has no value under either of \<^verbatim>\<open>shortenedUrl\<close> and
  \<^verbatim>\<open>shorturl\<close>, and a store that accepts writes. The copy of the component in
  \<^verbatim>\<open>part_002\<close> then writes a grant with the current time and sets \<^verbatim>\<open>hasAccess\<close>,
  without navigating. The component in \<^verbatim>\<open>src/components/AccessControl.tsx\<close> writes no
  grant and leaves \<^verbatim>\<open>hasAccess\<close> as it was: it navigates to the homepage address
  with the marker set, and a gate mounted at that address writes the grant.
\<close>

theorem shortener_failure_fallback:
  assumes "available (localStorage s)"
    and "outcome = FetchRejected \<or> outcome = JsonRejected
         \<or> (\<exists>data. outcome = Body data
               \<and> (\<forall>v. property data ''shortenedUrl'' \<noteq> Inr (Some v))
               \<and> (\<forall>v. property data ''shorturl'' \<noteq> Inr (Some v)))"
  shows "(\<exists>s'. redirectToShortener_002 outcome now s = Normal s'
            \<and> items (localStorage s') ''access_granted'' = Some (Number_toString now)
            \<and> hasAccess s' \<and> isChecking s' = isChecking s \<and> location_href s' = location_href s)
       \<and> (\<exists>s'. redirectToShortener outcome now s = Normal s'
            \<and> localStorage s' = localStorage s \<and> hasAccess s' = hasAccess s
            \<and> location_href s' = Some (Href_url (returnUrl s)))
       \<and> searchParams_get (searchParams (returnUrl s)) ''from_shortener'' = Some ''true''
       \<and> (\<exists>s'. useEffect later (AccessControl (homepageUrl s) (localStorage s) (returnUrl s)) = Normal s'
            \<and> items (localStorage s') ''access_granted'' = Some (Number_toString later)
            \<and> hasAccess s')"
proof -
  have av: "available (localStorage (redirect_request_002 s))"
    using assms(1) by (simp add: redirect_request_002_def)
  have "redirectToShortener_002 outcome now s
      = finally_block (grant_locally now (redirect_request_002 s))"
    by (simp add: redirectToShortener_002_def redirect_response_002_def try_block_002_failed [OF assms(2)])
  also note grant_locally_available [OF av]
  finally have A: "\<exists>s'. redirectToShortener_002 outcome now s = Normal s'
            \<and> items (localStorage s') ''access_granted'' = Some (Number_toString now)
            \<and> hasAccess s' \<and> isChecking s' = isChecking s \<and> location_href s' = location_href s"
    by (simp add: finally_block_def redirect_request_002_def)
  have f: "outcome = FetchRejected \<or> outcome = JsonRejected
     \<or> (\<exists>data. outcome = Body data \<and> (\<forall>v. property data ''shortenedUrl'' \<noteq> Inr (Some v)))"
    using assms(2) by blast
  have "redirectToShortener outcome now s
      = finally_block (Normal (redirect_directly (redirect_request now s)))"
    by (simp add: redirectToShortener_def redirect_response_def try_block_failed [OF f])
  then have B: "\<exists>s'. redirectToShortener outcome now s = Normal s'
            \<and> localStorage s' = localStorage s \<and> hasAccess s' = hasAccess s
            \<and> location_href s' = Some (Href_url (returnUrl s))"
    by (simp add: finally_block_def redirect_directly_def redirect_request_def returnUrl_def)
  have C: "\<exists>s'. useEffect later (AccessControl (homepageUrl s) (localStorage s) (returnUrl s)) = Normal s'
            \<and> items (localStorage s') ''access_granted'' = Some (Number_toString later)
            \<and> hasAccess s'"
    using assms(1) returnUrl_marker [of s]
    by (simp add: useEffect_def AccessControl_def setItem_def)
  from A B C returnUrl_marker show ?thesis by blast
qed

theorem shortener_failure_fallback_witness:
  "available (localStorage denied_visit)
   \<and> (\<forall>v. property (JObject []) ''shortenedUrl'' \<noteq> Inr (Some v))
   \<and> (\<forall>v. property (JObject []) ''shorturl'' \<noteq> Inr (Some v))
   \<and> (\<exists>s'. redirectToShortener_002 (Body (JObject [])) 2000 denied_visit = Normal s'
          \<and> items (localStorage s') ''access_granted'' = Some (Number_toString 2000)
          \<and> hasAccess s')
   \<and> (\<exists>s'. redirectToShortener (Body (JObject [])) 2000 denied_visit = Normal s'
          \<and> location_href s' = Some (Href_url (returnUrl denied_visit)))"
proof -
  have a: "available (localStorage denied_visit)"
    by (simp add: denied_visit_eq)
  have b: "\<forall>v. property (JObject []) ''shortenedUrl'' \<noteq> Inr (Some v)"
    "\<forall>v. property (JObject []) ''shorturl'' \<noteq> Inr (Some v)"
    by simp_all
  from b have c: "Body (JObject []) = FetchRejected \<or> Body (JObject []) = JsonRejected
         \<or> (\<exists>data. Body (JObject []) = Body data
               \<and> (\<forall>v. property data ''shortenedUrl'' \<noteq> Inr (Some v))
               \<and> (\<forall>v. property data ''shorturl'' \<noteq> Inr (Some v)))"
    by blast
  from shortener_failure_fallback [OF a c, of 2000 3000] a b show ?thesis by blast
qed

text \<open>
  The claim as stated fails on \<^verbatim>\<open>src/components/AccessControl.tsx\<close>: after a body
  with neither field the store holds no grant and the gate still shows the
  access-required view.
\<close>

theorem shortener_failure_no_local_grant:
  "items (localStorage (state_of (redirectToShortener (Body (JObject [])) 2000 denied_visit))) ''access_granted'' = None
   \<and> \<not> hasAccess (state_of (redirectToShortener (Body (JObject [])) 2000 denied_visit))
   \<and> render (state_of (redirectToShortener (Body (JObject [])) 2000 denied_visit)) = AccessRequiredView
   \<and> location_href (state_of (redirectToShortener (Body (JObject [])) 2000 denied_visit)) = Some (Href_url portal_marked)"
  by (simp add: denied_visit_eq redirect_defs)

text \<open>
  Claim C8, as amended. In the copy \<^verbatim>\<open>part_002\<close> a response that carries a non-empty
  address under \<^verbatim>\<open>shortenedUrl\<close>, or under \<^verbatim>\<open>shorturl\<close> when \<^verbatim>\<open>shortenedUrl\<close> is
  absent, makes the gate navigate to that address. In
  \<^verbatim>\<open>src/components/AccessControl.tsx\<close> only a response with \<^verbatim>\<open>status\<close> equal to
  \<^verbatim>\<open>success\<close> and the address under \<^verbatim>\<open>shortenedUrl\<close> does; a response that carries
  the address under \<^verbatim>\<open>shorturl\<close> alone, or whose status is not \<^verbatim>\<open>success\<close>, counts
  as a failure and the gate navigates to the return address instead.
\<close>

theorem shortened_url_field_names:
  assumes "u \<noteq> []"
  shows "(property data ''shortenedUrl'' = Inr (Some (JString u)) \<longrightarrow>
            redirectToShortener_002 (Body data) now s =
              Normal ((redirect_request_002 s)\<lparr>location_href := Some (Href_value (JString u)), isRedirecting := False\<rparr>))
       \<and> (property data ''shortenedUrl'' = Inr None \<and> property data ''shorturl'' = Inr (Some (JString u)) \<longrightarrow>
            redirectToShortener_002 (Body data) now s =
              Normal ((redirect_request_002 s)\<lparr>location_href := Some (Href_value (JString u)), isRedirecting := False\<rparr>))
       \<and> (property data ''status'' = Inr (Some (JString ''success''))
            \<and> property data ''shortenedUrl'' = Inr (Some (JString u)) \<longrightarrow>
            redirectToShortener (Body data) now s =
              Normal ((redirect_request now s)\<lparr>location_href := Some (Href_value (JString u)), isRedirecting := False\<rparr>))
       \<and> (property data ''shortenedUrl'' = Inr None \<and> property data ''shorturl'' = Inr (Some (JString u)) \<longrightarrow>
            redirectToShortener (Body data) now s =
              Normal ((redirect_request now s)\<lparr>location_href := Some (Href_url (returnUrl s)), isRedirecting := False\<rparr>))
       \<and> (property data ''status'' = Inr st \<and> st \<noteq> Some (JString ''success'') \<longrightarrow>
            redirectToShortener (Body data) now s =
              Normal ((redirect_request now s)\<lparr>location_href := Some (Href_url (returnUrl s)), isRedirecting := False\<rparr>))"
  using assms redirect_002_shortenedUrl [of u data now s]
    redirect_002_shorturl [of u None data now s]
    redirect_shortenedUrl [of u data now s]
    redirect_not_shortenedUrl [of None data now s]
    redirect_not_success [of data st now s]
  by simp

theorem shortened_url_field_names_witness:
  "location_href (state_of (redirectToShortener_002
       (Body (JObject [(''shortenedUrl'', JString ''https://vplink.in/a'')])) 2000 denied_visit))
     = Some (Href_value (JString ''https://vplink.in/a''))
   \<and> location_href (state_of (redirectToShortener_002
       (Body (JObject [(''shorturl'', JString ''https://vplink.in/a'')])) 2000 denied_visit))
     = Some (Href_value (JString ''https://vplink.in/a''))
   \<and> location_href (state_of (redirectToShortener
       (Body (JObject [(''status'', JString ''success''), (''shortenedUrl'', JString ''https://vplink.in/a'')]))
       2000 denied_visit))
     = Some (Href_value (JString ''https://vplink.in/a''))"
  using shortened_url_field_names
      [of "''https://vplink.in/a''" "JObject [(''shortenedUrl'', JString ''https://vplink.in/a'')]" 2000 denied_visit None]
    shortened_url_field_names
      [of "''https://vplink.in/a''" "JObject [(''shorturl'', JString ''https://vplink.in/a'')]" 2000 denied_visit None]
    shortened_url_field_names
      [of "''https://vplink.in/a''"
          "JObject [(''status'', JString ''success''), (''shortenedUrl'', JString ''https://vplink.in/a'')]"
          2000 denied_visit None]
  by simp

text \<open>
  The claim as stated fails on \<^verbatim>\<open>src/components/AccessControl.tsx\<close>: a success
  response that carries the address under \<^verbatim>\<open>shorturl\<close> is not followed.
\<close>

theorem shorturl_not_accepted:
  "location_href (state_of (redirectToShortener
       (Body (JObject [(''status'', JString ''success''), (''shorturl'', JString ''https://vplink.in/a'')]))
       2000 denied_visit))
     = Some (Href_url portal_marked)
   \<and> location_href (state_of (redirectToShortener
       (Body (JObject [(''status'', JString ''success''), (''shorturl'', JString ''https://vplink.in/a'')]))
       2000 denied_visit))
     \<noteq> Some (Href_value (JString ''https://vplink.in/a''))"
  by (simp add: denied_visit_eq redirect_defs)

section \<open>The auto-redirect timer\<close>

lemma redirect_keeps_timeouts:
  "timeouts (state_of (redirectToShortener outcome now s)) = timeouts s"
  by (simp add: redirect_defs split: fetch_outcome.splits sum.splits)

lemma redirect_002_keeps_timeouts:
  "timeouts (state_of (redirectToShortener_002 outcome now s)) = timeouts s"
  by (simp add: redirect_defs split: fetch_outcome.splits sum.splits)

lemma redirect_requests:
  "requests (state_of (redirectToShortener outcome now s)) =
     requests s @ [\<lparr>api_param = ''ad3ce711eb354d522cbac856b0dfa149b6c71e43'',
                    url_param = returnUrl s, alias_param = ''ms'' @ Number_toString now\<rparr>]"
  by (simp add: redirect_defs split: fetch_outcome.splits sum.splits)

lemma redirect_002_requests:
  "requests (state_of (redirectToShortener_002 outcome now s)) =
     requests s @ [\<lparr>api_param = ''ad3ce711eb354d522cbac856b0dfa149b6c71e43'',
                    url_param = returnUrl s, alias_param = ''auto''\<rparr>]"
  by (simp add: redirect_defs split: fetch_outcome.splits sum.splits)

text \<open>
  Claim C4, as amended. The timer that the mount effect sets when access is denied is
  never cancelled: unmounting leaves it pending, and so does every run of the redirect
  flow, also one that grants access. When it fires, it runs the redirect flow and the
  shortener request is sent, whether or not the component is still mounted and whether or
  not access has been granted meanwhile.
\<close>

theorem auto_redirect_timer_never_cancelled:
  "timeouts (unmount s) = timeouts s
   \<and> timeouts (state_of (redirectToShortener outcome now s)) = timeouts s
   \<and> timeouts (state_of (redirectToShortener_002 outcome now s)) = timeouts s
   \<and> (timeouts s \<noteq> [] \<longrightarrow>
        requests (state_of (timeout_fires (redirectToShortener outcome now) s)) =
          requests s @ [\<lparr>api_param = ''ad3ce711eb354d522cbac856b0dfa149b6c71e43'',
                         url_param = returnUrl s, alias_param = ''ms'' @ Number_toString now\<rparr>]
        \<and> requests (state_of (timeout_fires (redirectToShortener_002 outcome now) s)) =
          requests s @ [\<lparr>api_param = ''ad3ce711eb354d522cbac856b0dfa149b6c71e43'',
                         url_param = returnUrl s, alias_param = ''auto''\<rparr>])"
proof -
  have "timeouts (unmount s) = timeouts s" by (simp add: unmount_def)
  moreover have "requests (state_of (timeout_fires (redirectToShortener outcome now) s)) =
          requests s @ [\<lparr>api_param = ''ad3ce711eb354d522cbac856b0dfa149b6c71e43'',
                         url_param = returnUrl s, alias_param = ''ms'' @ Number_toString now\<rparr>]"
    if "timeouts s \<noteq> []"
    using that by (cases "timeouts s") (simp_all add: timeout_fires_def redirect_requests returnUrl_def)
  moreover have "requests (state_of (timeout_fires (redirectToShortener_002 outcome now) s)) =
          requests s @ [\<lparr>api_param = ''ad3ce711eb354d522cbac856b0dfa149b6c71e43'',
                         url_param = returnUrl s, alias_param = ''auto''\<rparr>]"
    if "timeouts s \<noteq> []"
    using that by (cases "timeouts s") (simp_all add: timeout_fires_def redirect_002_requests returnUrl_def)
  ultimately show ?thesis
    using redirect_keeps_timeouts redirect_002_keeps_timeouts by blast
qed

theorem auto_redirect_timer_never_cancelled_witness:
  "timeouts (unmount denied_visit) = [2000]
   \<and> length (requests (state_of (timeout_fires (redirectToShortener FetchRejected 2000) (unmount denied_visit)))) = 1
   \<and> length (requests (state_of (timeout_fires (redirectToShortener_002 FetchRejected 2000) (unmount denied_visit)))) = 1"
proof -
  have t: "timeouts (unmount denied_visit) = [2000]" "requests (unmount denied_visit) = []"
    by (simp_all add: denied_visit_eq unmount_def)
  then have ne: "timeouts (unmount denied_visit) \<noteq> []" by simp
  from auto_redirect_timer_never_cancelled [of "unmount denied_visit" FetchRejected 2000] ne t
  show ?thesis by simp
qed

text \<open>
  The claim as stated fails: after the unmount the timer is still pending, and when it
  fires on a success response the browser is sent to the shortened address; in the copy
  \<^verbatim>\<open>part_002\<close> the same happens after a click whose request failed has granted access.
\<close>

theorem stale_redirect_after_unmount:
  "\<not> mounted (unmount denied_visit)
   \<and> timeouts (unmount denied_visit) = [2000]
   \<and> location_href (state_of (timeout_fires (redirectToShortener (Body success_body) 2000) (unmount denied_visit)))
       = Some (Href_value (JString ''https://vplink.in/a''))
   \<and> hasAccess (state_of (onClick (redirectToShortener_002 FetchRejected 500) denied_visit))
   \<and> timeouts (state_of (onClick (redirectToShortener_002 FetchRejected 500) denied_visit)) = [2000]
   \<and> location_href (state_of (timeout_fires (redirectToShortener_002 (Body success_body) 2000)
         (state_of (onClick (redirectToShortener_002 FetchRejected 500) denied_visit))))
       = Some (Href_value (JString ''https://vplink.in/a''))"
  by (simp add: denied_visit_eq unmount_def timeout_fires_def onClick_def redirect_defs)

section \<open>Progress capture\<close>

lemma handleTimeUpdate_available:
  assumes "videoRef p = Some video" "available (storage p)"
  shows "handleTimeUpdate toString p =
     Normal (p\<lparr>currentTime := video_currentTime video,
               storage := (if \<lfloor>video_currentTime video\<rfloor> mod 5 = 0
                           then (storage p)\<lparr>items := (items (storage p))(progress_key (url p) \<mapsto> toString (video_currentTime video)),
                                             setItem_log := setItem_log (storage p) @ [(progress_key (url p), toString (video_currentTime video))]\<rparr>
                           else storage p)\<rparr>)"
  using assms by (simp add: handleTimeUpdate_def setItem_def Let_def)

lemma handleTimeUpdate_items_twice:
  "items (storage (state_of (handleTimeUpdate toString (state_of (handleTimeUpdate toString p)))))
     = items (storage (state_of (handleTimeUpdate toString p)))"
  by (simp add: handleTimeUpdate_def setItem_def Let_def split: option.splits)

lemma timeupdate_available:
  assumes "videoRef p = Some video" "available (storage p)"
  shows "state_of (timeupdate toString t p) =
     p\<lparr>videoRef := Some (video\<lparr>video_currentTime := t\<rparr>), currentTime := t,
       storage := (if \<lfloor>t\<rfloor> mod 5 = 0
                   then (storage p)\<lparr>items := (items (storage p))(progress_key (url p) \<mapsto> toString t),
                                     setItem_log := setItem_log (storage p) @ [(progress_key (url p), toString t)]\<rparr>
                   else storage p)\<rparr>"
proof -
  let ?p = "p\<lparr>videoRef := map_option (\<lambda>video. video\<lparr>video_currentTime := t\<rparr>) (videoRef p)\<rparr>"
  have "videoRef ?p = Some (video\<lparr>video_currentTime := t\<rparr>)" "available (storage ?p)"
    using assms by simp_all
  from handleTimeUpdate_available [OF this, of toString] assms show ?thesis
    by (simp add: timeupdate_def)
qed

lemma playback_log:
  assumes "videoRef p \<noteq> None" "available (storage p)"
  shows "setItem_log (storage (playback toString ticks p)) =
     setItem_log (storage p) @
       map (\<lambda>t. (progress_key (url p), toString t)) (filter (\<lambda>t. \<lfloor>t\<rfloor> mod 5 = 0) ticks)"
  using assms
proof (induction ticks arbitrary: p)
  case Nil
  then show ?case by simp
next
  case (Cons t ticks)
  from Cons.prems obtain video where v: "videoRef p = Some video" by auto
  let ?q = "state_of (timeupdate toString t p)"
  have q: "videoRef ?q \<noteq> None" "available (storage ?q)" "url ?q = url p"
    using Cons.prems(2) by (simp_all add: timeupdate_available [OF v Cons.prems(2)])
  have log: "setItem_log (storage ?q) =
      setItem_log (storage p) @ (if \<lfloor>t\<rfloor> mod 5 = 0 then [(progress_key (url p), toString t)] else [])"
    by (simp add: timeupdate_available [OF v Cons.prems(2)])
  show ?case
    using Cons.IH [OF q(1,2)] by (simp add: log q(3))
qed

lemma quarter_gate: "filter (\<lambda>t::real. \<lfloor>t\<rfloor> mod 5 = 0) quarter_seconds = [0, 1/4, 2/4, 3/4, 20/4, 21/4, 22/4, 23/4, 40/4, 41/4, 42/4, 43/4]"
  by (simp add: upt_rec)


lemma quarter_strings:
  "map toString_hundredths [0, 1/4, 2/4, 3/4, 20/4, 21/4, 22/4, 23/4, 40/4, 41/4, 42/4, 43/4]
    = [''0'', ''0.25'', ''0.5'', ''0.75'', ''5'', ''5.25'', ''5.5'', ''5.75'',
       ''10'', ''10.25'', ''10.5'', ''10.75'']"
  by (simp add: toString_hundredths_def digits_of.simps digit_char_def Let_def)

text \<open>
  Claim C5, as amended. With the media element present and a store that accepts writes,
  a time-update event writes the progress exactly when the floor of the position is a
  multiple of 5, and then writes the rendering of the position under the key of the
  video; handling the same position twice leaves the stored values as after the first
  time; and over a run of events the writes are, in order, those of the events that pass
  the test, one write for each such event: during playback from 0 to 12 seconds every
  event with a position in [0, 1), [5, 6) or [10, 11) writes.
\<close>

theorem progress_write_gate:
  assumes "videoRef p = Some video" and "available (storage p)"
  shows "setItem_log (storage (state_of (handleTimeUpdate toString p))) =
           setItem_log (storage p) @
             (if \<lfloor>video_currentTime video\<rfloor> mod 5 = 0
              then [(progress_key (url p), toString (video_currentTime video))] else [])
       \<and> items (storage (state_of (handleTimeUpdate toString (state_of (handleTimeUpdate toString p)))))
           = items (storage (state_of (handleTimeUpdate toString p)))
       \<and> setItem_log (storage (playback toString ticks p)) =
           setItem_log (storage p) @
             map (\<lambda>t. (progress_key (url p), toString t)) (filter (\<lambda>t. \<lfloor>t\<rfloor> mod 5 = 0) ticks)"
proof (intro conjI)
  show "setItem_log (storage (state_of (handleTimeUpdate toString p))) =
           setItem_log (storage p) @
             (if \<lfloor>video_currentTime video\<rfloor> mod 5 = 0
              then [(progress_key (url p), toString (video_currentTime video))] else [])"
    by (simp add: handleTimeUpdate_available [OF assms])
  show "items (storage (state_of (handleTimeUpdate toString (state_of (handleTimeUpdate toString p)))))
           = items (storage (state_of (handleTimeUpdate toString p)))"
    by (rule handleTimeUpdate_items_twice)
  have "videoRef p \<noteq> None" using assms(1) by simp
  then show "setItem_log (storage (playback toString ticks p)) =
           setItem_log (storage p) @
             map (\<lambda>t. (progress_key (url p), toString t)) (filter (\<lambda>t. \<lfloor>t\<rfloor> mod 5 = 0) ticks)"
    using assms(2) by (rule playback_log)
qed

theorem progress_write_gate_witness:
  "videoRef lecture_player = Some \<lparr>video_currentTime = 0\<rparr> \<and> available (storage lecture_player)
   \<and> setItem_log (storage (playback toString_hundredths [4, 5, 6] lecture_player)) =
       [(progress_key ''https://example.com/lecture1.m3u8'', ''5'')]"
proof -
  have h: "videoRef lecture_player = Some \<lparr>video_currentTime = 0\<rparr>" "available (storage lecture_player)"
    by simp_all
  have s: "toString_hundredths 5 = ''5''"
    by (simp add: toString_hundredths_def digits_of.simps digit_char_def Let_def)
  from progress_write_gate [OF h, of toString_hundredths "[4, 5, 6]"] h s
  show ?thesis by simp
qed

text \<open>
  The claim as stated fails: with a time-update event every 250 ms from 0 to 12 seconds
  there are twelve writes, four about each of 0, 5 and 10 seconds, not two.
\<close>

theorem twelve_progress_writes:
  "map snd (setItem_log (storage (playback toString_hundredths quarter_seconds lecture_player)))
     = [''0'', ''0.25'', ''0.5'', ''0.75'', ''5'', ''5.25'', ''5.5'', ''5.75'',
        ''10'', ''10.25'', ''10.5'', ''10.75'']
   \<and> length (setItem_log (storage (playback toString_hundredths quarter_seconds lecture_player))) = 12"
proof -
  have "videoRef lecture_player \<noteq> None" "available (storage lecture_player)" by simp_all
  from playback_log [OF this, of toString_hundredths quarter_seconds]
  have "map snd (setItem_log (storage (playback toString_hundredths quarter_seconds lecture_player)))
     = map toString_hundredths (filter (\<lambda>t::real. \<lfloor>t\<rfloor> mod 5 = 0) quarter_seconds)"
    by (simp add: comp_def)
  then have m: "map snd (setItem_log (storage (playback toString_hundredths quarter_seconds lecture_player)))
     = [''0'', ''0.25'', ''0.5'', ''0.75'', ''5'', ''5.25'', ''5.5'', ''5.75'',
        ''10'', ''10.25'', ''10.5'', ''10.75'']"
    unfolding quarter_gate quarter_strings .
  from arg_cong [OF m, of length] have "length (setItem_log (storage (playback toString_hundredths quarter_seconds lecture_player))) = 12"
    by simp
  with m show ?thesis by simp
qed

section \<open>The key of a video\<close>

text \<open>Only the first 15 code units of the address reach the key.\<close>

lemma btoa_triples:
  "length xs = 3 * k \<Longrightarrow> btoa (xs @ ys) = btoa xs @ btoa ys \<and> length (btoa xs) = 4 * k"
proof (induction k arbitrary: xs)
  case 0
  then show ?case by simp
next
  case (Suc k)
  then obtain a b c rest where xs: "xs = a # b # c # rest" "length rest = 3 * k"
    by (cases xs rule: btoa.cases) auto
  from Suc.IH [OF xs(2)] show ?case by (simp add: xs(1) Let_def)
qed

lemma videoId_prefix:
  assumes "15 \<le> length u"
  shows "videoId u = btoa (take 15 u)"
proof -
  have l: "length (take 15 u) = 3 * 5" using assms by simp
  from btoa_triples [OF l, of "drop 15 u"]
  have "btoa u = btoa (take 15 u) @ btoa (drop 15 u)" "length (btoa (take 15 u)) = 20"
    by simp_all
  then show ?thesis by (simp add: videoId_def)
qed

lemma videoId_same_prefix:
  assumes "15 \<le> length u" "15 \<le> length v" "take 15 u = take 15 v"
  shows "videoId u = videoId v"
  using assms by (simp add: videoId_prefix)

text \<open>
  Claim C6. The key is a function of the address, so the same address gives the same key
  every time. Distinct addresses are meant to give distinct keys, and here the code
  fails: two lectures of one host share the key, hence the stored progress.
\<close>

theorem videoId_collision:
  "''https://example.com/lecture1.m3u8'' \<noteq> ''https://example.com/lecture2.m3u8''
   \<and> videoId ''https://example.com/lecture1.m3u8'' = ''aHR0cHM6Ly9leGFtcGxl''
   \<and> videoId ''https://example.com/lecture2.m3u8'' = ''aHR0cHM6Ly9leGFtcGxl''
   \<and> progress_key ''https://example.com/lecture1.m3u8'' = progress_key ''https://example.com/lecture2.m3u8''"
  by (simp add: progress_key_def videoId_prefix b64_def base64_alphabet_def Let_def)

section \<open>Seeking\<close>

lemma scaled_in_range:
  fixes f d :: real
  assumes "0 < d"
  shows "(0 \<le> f * d \<and> f * d \<le> d) = (0 \<le> f \<and> f \<le> 1)"
proof -
  have "(0 \<le> f * d) = (0 \<le> f)"
    using assms by (simp add: zero_le_mult_iff)
  moreover have "(f * d \<le> 1 * d) = (f \<le> 1)"
    using assms by (rule mult_le_cancel_right_pos)
  ultimately show ?thesis by simp
qed

text \<open>
  Claim C7, as amended. With the media element present: when the duration is 0 the seek
  does nothing; otherwise, on a track of width other than 0, the position given to the
  media element and kept in the state is the fraction times the duration, as computed
  and not clamped: for a positive duration it lies in [0, duration] exactly when the
  fraction lies in [0, 1].
\<close>

theorem seek_position_unclamped:
  assumes "videoRef p = Some video"
  shows "(duration p = 0 \<longrightarrow> handleSeek e p = Normal p)
       \<and> (duration p \<noteq> 0 \<and> rect_width e \<noteq> 0 \<longrightarrow>
            handleSeek e p =
              Normal (p\<lparr>videoRef := Some (video\<lparr>video_currentTime := (clientX e - rect_left e) / rect_width e * duration p\<rparr>),
                        currentTime := (clientX e - rect_left e) / rect_width e * duration p\<rparr>))
       \<and> (0 < duration p \<and> rect_width e \<noteq> 0 \<longrightarrow>
            (0 \<le> currentTime (state_of (handleSeek e p)) \<and> currentTime (state_of (handleSeek e p)) \<le> duration p)
              = (0 \<le> (clientX e - rect_left e) / rect_width e \<and> (clientX e - rect_left e) / rect_width e \<le> 1))"
proof (intro conjI impI)
  assume "duration p = 0"
  then show "handleSeek e p = Normal p" using assms by (simp add: handleSeek_def)
next
  assume "duration p \<noteq> 0 \<and> rect_width e \<noteq> 0"
  then show "handleSeek e p =
              Normal (p\<lparr>videoRef := Some (video\<lparr>video_currentTime := (clientX e - rect_left e) / rect_width e * duration p\<rparr>),
                        currentTime := (clientX e - rect_left e) / rect_width e * duration p\<rparr>)"
    using assms by (simp add: handleSeek_def Let_def)
next
  assume a: "0 < duration p \<and> rect_width e \<noteq> 0"
  let ?f = "(clientX e - rect_left e) / rect_width e"
  have c: "currentTime (state_of (handleSeek e p)) = ?f * duration p"
    using assms a by (simp add: handleSeek_def Let_def)
  from a have "0 < duration p" by simp
  then show "(0 \<le> currentTime (state_of (handleSeek e p)) \<and> currentTime (state_of (handleSeek e p)) \<le> duration p)
              = (0 \<le> ?f \<and> ?f \<le> 1)"
    unfolding c by (rule scaled_in_range)
qed

theorem seek_position_unclamped_witness:
  "handleSeek \<lparr>clientX = 150, rect_left = 100, rect_width = 200\<rparr> lecture_player =
     Normal (lecture_player\<lparr>videoRef := Some \<lparr>video_currentTime = 15\<rparr>, currentTime := 15\<rparr>)
   \<and> handleSeek \<lparr>clientX = 150, rect_left = 100, rect_width = 200\<rparr> (lecture_player\<lparr>duration := 0\<rparr>) =
     Normal (lecture_player\<lparr>duration := 0\<rparr>)"
  using seek_position_unclamped [of lecture_player "\<lparr>video_currentTime = 0\<rparr>" "\<lparr>clientX = 150, rect_left = 100, rect_width = 200\<rparr>"]
    seek_position_unclamped [of "lecture_player\<lparr>duration := 0\<rparr>" "\<lparr>video_currentTime = 0\<rparr>" "\<lparr>clientX = 150, rect_left = 100, rect_width = 200\<rparr>"]
  by simp

text \<open>
  The claim as stated fails: a pointer at one and a half times the width of the track
  gives 90 seconds on a video of 60, and a pointer left of the track a negative position.
\<close>

theorem seek_beyond_duration:
  "currentTime (state_of (handleSeek \<lparr>clientX = 150, rect_left = 0, rect_width = 100\<rparr> lecture_player)) = 90
   \<and> duration lecture_player = 60
   \<and> \<not> currentTime (state_of (handleSeek \<lparr>clientX = 150, rect_left = 0, rect_width = 100\<rparr> lecture_player))
         \<le> duration lecture_player
   \<and> videoRef (state_of (handleSeek \<lparr>clientX = 150, rect_left = 0, rect_width = 100\<rparr> lecture_player))
        = Some \<lparr>video_currentTime = 90\<rparr>
   \<and> currentTime (state_of (handleSeek \<lparr>clientX = 90, rect_left = 100, rect_width = 100\<rparr> lecture_player)) = - 6"
  by (simp add: handleSeek_def Let_def)

section \<open>Doubles and their strings\<close>

subsection \<open>Rounding leaves a double as it is\<close>

lemma round_half_even_int [simp]: "round_half_even (real_of_int M) = M"
  by (simp add: round_half_even_def)

lemma double_below_overflow:
  assumes "0 < m" "m < 2 ^ 53" "e \<le> 971"
  shows "real_of_int m * 2 powi e < 2 ^ 1024 - 2 ^ 970"
proof -
  have "(2::real) powi e \<le> 2 powi 971"
    using assms(3) by (intro power_int_increasing) auto
  moreover have "real_of_int m \<le> 2 ^ 53 - 1"
  proof -
    have "m \<le> 2 ^ 53 - 1" using assms(2) by simp
    then have "real_of_int m \<le> real_of_int (2 ^ 53 - 1)" by (rule of_int_le_iff [THEN iffD2])
    then show ?thesis by simp
  qed
  ultimately have "real_of_int m * 2 powi e \<le> (2 ^ 53 - 1) * 2 powi 971"
    using assms(1) by (intro mult_mono) auto
  also have "\<dots> < 2 ^ 1024 - 2 ^ 970" by simp
  finally show ?thesis .
qed

lemma floor_log2_double:
  assumes "0 < m" "m < 2 ^ 53"
  shows "\<lfloor>log 2 (real_of_int m * 2 powi e)\<rfloor> \<le> e + 52"
proof -
  have pos: "0 < real_of_int m * 2 powi e" using assms(1) by simp
  have "real_of_int m < 2 ^ 53" using assms(2)
    by (metis of_int_less_iff of_int_numeral of_int_power)
  then have "real_of_int m * 2 powi e < 2 ^ 53 * 2 powi e"
    by (intro mult_strict_right_mono) auto
  also have "\<dots> = 2 powi (53 + e)" by (simp add: power_int_add)
  also have "\<dots> = 2 powr real_of_int (53 + e)"
    by (rule powr_real_of_int' [symmetric]) simp_all
  finally have "real_of_int m * 2 powi e < 2 powr real_of_int (53 + e)" .
  then have "log 2 (real_of_int m * 2 powi e) < real_of_int (e + 53)"
    using pos by (simp add: log_less_iff add.commute)
  then have "\<lfloor>log 2 (real_of_int m * 2 powi e)\<rfloor> < e + 53" by (simp add: floor_less_iff)
  then show ?thesis by simp
qed

lemma RoundMVResult_double_pos:
  assumes "0 < m" "m < 2 ^ 53" "- 1074 \<le> e" "e \<le> 971"
  shows "RoundMVResult (real_of_int m * 2 powi e) = Finite (real_of_int m * 2 powi e)"
proof -
  let ?a = "real_of_int m * 2 powi e"
  let ?p = "max (\<lfloor>log 2 ?a\<rfloor> - 52) (- 1074)"
  have pos: "0 < ?a" using assms(1) by simp
  have lt: "?a < 2 ^ 1024 - 2 ^ 970" by (rule double_below_overflow [OF assms(1,2,4)])
  have pe: "?p \<le> e" using floor_log2_double [OF assms(1,2), of e] assms(3) by simp
  have "?a / 2 powi ?p = real_of_int m * 2 powi (e - ?p)"
    by (simp add: power_int_diff)
  also have "\<dots> = real_of_int (m * 2 ^ nat (e - ?p))"
    using pe by (simp add: power_int_nonneg_exp)
  finally have q: "?a / 2 powi ?p = real_of_int (m * 2 ^ nat (e - ?p))" .
  have rest: "real_of_int (m * 2 ^ nat (e - ?p)) * 2 powi ?p = ?a"
    unfolding q [symmetric] by simp
  have "RoundMVResult ?a = Finite (real_of_int (round_half_even (?a / 2 powi ?p)) * 2 powi ?p)"
    using pos lt unfolding RoundMVResult_def Let_def by (simp only: if_False not_le [symmetric] less_irrefl simp_thms split: if_splits) auto
  also have "\<dots> = Finite ?a"
    unfolding q round_half_even_int rest ..
  finally show ?thesis .
qed

lemma RoundMVResult_double:
  assumes "is_double x" "0 \<le> x"
  shows "RoundMVResult x = Finite x"
proof (cases "x = 0")
  case True
  then show ?thesis by (simp add: RoundMVResult_def)
next
  case False
  from assms(1) obtain m e where x: "x = real_of_int m * 2 powi e" "\<bar>m\<bar> < 2 ^ 53" "- 1074 \<le> e" "e \<le> 971"
    unfolding is_double_def by blast
  from False assms(2) have "0 < x" by simp
  then have "0 < real_of_int m * (2::real) powi e" unfolding x(1) .
  moreover have "0 < (2::real) powi e" by simp
  ultimately have "0 < real_of_int m" by (simp add: zero_less_mult_iff)
  then have "0 < m" by simp
  with x(2) have "m < 2 ^ 53" by simp
  from RoundMVResult_double_pos [OF \<open>0 < m\<close> this x(3,4)] show ?thesis by (simp add: x(1))
qed

lemma is_double_minus: "is_double x \<Longrightarrow> is_double (- x)"
  unfolding is_double_def
  by (elim exE, rule_tac x = "- m" in exI, rule_tac x = e in exI) simp

subsection \<open>Every double has digits\<close>

lemma length_digits_of_bounds:
  "0 < s \<Longrightarrow> 10 ^ (length (digits_of s) - 1) \<le> s \<and> s < 10 ^ length (digits_of s)"
proof (induction s rule: digits_of.induct)
  case (1 n)
  show ?case
  proof (cases "n < 10")
    case True
    with 1(2) show ?thesis by (subst (1 2) digits_of.simps) simp
  next
    case False
    then have pos: "0 < n div 10" by simp
    from 1(1) [OF False pos]
    have ih: "10 ^ (length (digits_of (n div 10)) - 1) \<le> n div 10"
      "n div 10 < 10 ^ length (digits_of (n div 10))" by simp_all
    have ne: "digits_of (n div 10) \<noteq> []" by (rule digits_of_ne)
    then obtain j where j: "length (digits_of (n div 10)) = Suc j"
      by (cases "digits_of (n div 10)") auto
    have len: "length (digits_of n) = Suc (Suc j)"
      using False j by (subst digits_of.simps) simp
    from ih j have a: "10 ^ j \<le> n div 10" "n div 10 < 10 ^ Suc j" by simp_all
    from a(1) have "10 * 10 ^ j \<le> 10 * (n div 10)" by simp
    also have "\<dots> \<le> n" by simp
    finally have lo: "10 ^ Suc j \<le> n" by simp
    from a(2) have "n div 10 + 1 \<le> 10 ^ Suc j" by simp
    then have "10 * (n div 10 + 1) \<le> 10 * 10 ^ Suc j" by (rule mult_le_mono2)
    moreover have "n < 10 * (n div 10 + 1)" by simp
    ultimately have hi: "n < 10 ^ Suc (Suc j)" by simp
    from lo hi show ?thesis unfolding len by simp
  qed
qed

lemma scale10_powi: "scale10 x e = x * 10 powi e"
  by (simp add: scale10_def power_int_def field_simps power_inverse)

lemma double_decimal:
  assumes "0 < m"
  shows "\<exists>s t. 0 < s \<and> real_of_int m * 2 powi e = scale10 (real s) t"
proof (cases "0 \<le> e")
  case True
  let ?s = "nat m * 2 ^ nat e"
  have "real ?s = real_of_int m * 2 powi e"
    using assms True by (simp add: power_int_nonneg_exp)
  moreover have "0 < ?s" using assms by simp
  ultimately show ?thesis
    by (intro exI [of _ ?s] exI [of _ 0]) (simp add: scale10_def)
next
  case False
  let ?j = "nat (- e)"
  let ?s = "nat m * 5 ^ ?j"
  have e: "e = - int ?j" using False by simp
  have "(2::real) powi e = inverse (2 ^ ?j)"
    by (subst e) (simp add: power_int_minus del: int_nat_eq)
  then have "real_of_int m * 2 powi e = real_of_int m / 2 ^ ?j"
    by (simp add: divide_inverse)
  also have "\<dots> = real_of_int m * 5 ^ ?j / (2 ^ ?j * 5 ^ ?j)" by simp
  also have "(2::real) ^ ?j * 5 ^ ?j = 10 ^ ?j" by (simp flip: power_mult_distrib)
  also have "real_of_int m * 5 ^ ?j / 10 ^ ?j = scale10 (real ?s) e"
    using False assms by (simp add: scale10_def)
  finally have "real_of_int m * 2 powi e = scale10 (real ?s) e" .
  moreover have "0 < ?s" using assms by simp
  ultimately show ?thesis by blast
qed

lemma digits_for_exists:
  assumes "is_double x" "0 < x"
  shows "\<exists>n k s. digits_for x n k s"
proof -
  from assms(1) obtain m e where x: "x = real_of_int m * 2 powi e" "\<bar>m\<bar> < 2 ^ 53" "- 1074 \<le> e" "e \<le> 971"
    unfolding is_double_def by blast
  have "0 < real_of_int m * (2::real) powi e" using assms(2) unfolding x(1) .
  moreover have "0 < (2::real) powi e" by simp
  ultimately have "0 < real_of_int m" by (simp add: zero_less_mult_iff)
  then have m: "0 < m" by simp
  from double_decimal [OF m, of e] obtain s t where s: "0 < s" "x = scale10 (real s) t"
    unfolding x(1) by blast
  let ?k = "length (digits_of s)"
  have k: "1 \<le> ?k" using digits_of_ne [of s] by (cases "digits_of s") auto
  have r: "RoundMVResult (scale10 (real s) t) = Finite x"
    using RoundMVResult_double [OF assms(1)] assms(2) s(2) by simp
  have "digits_for x (int ?k + t) ?k s"
    unfolding digits_for_def using k length_digits_of_bounds [OF s(1)] r by simp
  then show ?thesis by blast
qed

lemma shortest_digits_exists:
  assumes "is_double x" "0 < x"
  shows "\<exists>n k s. shortest_digits x n k s"
proof -
  let ?P = "\<lambda>k. \<exists>n s. digits_for x n k s"
  from digits_for_exists [OF assms] have "\<exists>k. ?P k" by blast
  then obtain k where k: "?P k" "\<forall>j. ?P j \<longrightarrow> k \<le> j"
    using exists_least_iff [of ?P] by (metis linorder_not_less)
  from k(1) obtain n s where d: "digits_for x n k s" by blast
  have "\<not> (\<exists>n' k' s'. digits_for x n' k' s' \<and> k' < k)"
    using k(2) by (metis linorder_not_less)
  with d show ?thesis unfolding shortest_digits_def by blast
qed

lemma Number_toString_double_exists:
  assumes "is_double x"
  shows "\<exists>str. Number_toString_double x str"
proof -
  consider "x = 0" | "x < 0" | "0 < x" by linarith
  then show ?thesis
  proof cases
    case 1
    then show ?thesis by (simp add: Number_toString_double_def)
  next
    case 2
    then have "0 < - x" by simp
    from shortest_digits_exists [OF is_double_minus [OF assms] this] 2
    show ?thesis unfolding Number_toString_double_def by auto
  next
    case 3
    from shortest_digits_exists [OF assms this] 3
    show ?thesis unfolding Number_toString_double_def by auto
  qed
qed

subsection \<open>Parsing the string of a number gives the number\<close>

lemma isDecimalDigit_radix: "isDecimalDigit c = isRadixDigit 10 c"
  by (auto simp: isDecimalDigit_def isRadixDigit_def digitValue_def Let_def)

lemma digits_of_decimal: "\<forall>c \<in> set (digits_of s). isDecimalDigit c"
  using digits_of_all by (simp add: isDecimalDigit_radix)

lemma span_digits:
  assumes "\<forall>c \<in> set ds. isDecimalDigit c" "rest = [] \<or> \<not> isDecimalDigit (hd rest)"
  shows "takeWhile isDecimalDigit (ds @ rest) = ds" "dropWhile isDecimalDigit (ds @ rest) = rest"
proof -
  have t: "takeWhile isDecimalDigit rest = []" "dropWhile isDecimalDigit rest = rest"
    using assms(2) by (cases rest; simp)+
  show "takeWhile isDecimalDigit (ds @ rest) = ds" "dropWhile isDecimalDigit (ds @ rest) = rest"
    using assms(1) t by (simp_all add: takeWhile_append2 dropWhile_append2)
qed

lemma foldl_digits:
  assumes "\<forall>c \<in> set ds. isDecimalDigit c"
  shows "foldl (\<lambda>acc c. case digitValue c of None \<Rightarrow> acc | Some d \<Rightarrow> acc * 10 + d) a ds
       = a * 10 ^ length ds + radixValue 10 ds"
  using assms
proof (induction ds arbitrary: a rule: rev_induct)
  case Nil
  then show ?case by (simp add: radixValue_def)
next
  case (snoc c ds)
  then have ih: "foldl (\<lambda>acc c. case digitValue c of None \<Rightarrow> acc | Some d \<Rightarrow> acc * 10 + d) a ds
       = a * 10 ^ length ds + radixValue 10 ds" for a by simp
  from snoc.prems have "isRadixDigit 10 c" by (simp add: isDecimalDigit_radix)
  then obtain d where d: "digitValue c = Some d" by (auto simp: isRadixDigit_def split: option.splits)
  have v: "radixValue 10 (ds @ [c]) = radixValue 10 ds * 10 + d"
    by (simp add: radixValue_def d)
  have "foldl (\<lambda>acc c. case digitValue c of None \<Rightarrow> acc | Some d \<Rightarrow> acc * 10 + d) a (ds @ [c])
      = (a * 10 ^ length ds + radixValue 10 ds) * 10 + d"
    by (simp add: d ih)
  then show ?case by (simp add: v algebra_simps)
qed

lemma radixValue_append:
  assumes "\<forall>c \<in> set b. isDecimalDigit c"
  shows "radixValue 10 (a @ b) = radixValue 10 a * 10 ^ length b + radixValue 10 b"
  using foldl_digits [OF assms, of "radixValue 10 a"] by (simp add: radixValue_def)

lemma zero_digit: "isDecimalDigit CHR ''0''" "digitValue CHR ''0'' = Some 0"
  by (simp_all add: isDecimalDigit_def digitValue_def)

lemma radixValue_zeros: "radixValue 10 (replicate j CHR ''0'') = 0"
  by (induction j) (simp_all add: radixValue_def zero_digit)

lemma length_digits_of_eq:
  assumes "10 ^ (k - 1) \<le> s" "s < 10 ^ k" "1 \<le> k"
  shows "length (digits_of s) = k"
proof -
  have s: "0 < s" using assms(1) by (metis gr0I not_less zero_less_numeral zero_less_power)
  let ?L = "length (digits_of s)"
  from length_digits_of_bounds [OF s] have b: "10 ^ (?L - 1) \<le> s" "s < 10 ^ ?L" by simp_all
  have L: "1 \<le> ?L" using digits_of_ne [of s] by (cases "digits_of s") auto
  have "\<not> ?L < k"
  proof
    assume "?L < k"
    then have "?L \<le> k - 1" by simp
    then have "(10::nat) ^ ?L \<le> 10 ^ (k - 1)" by (intro power_increasing) auto
    then have "10 ^ ?L \<le> s" using assms(1) by (rule le_trans)
    with b(2) show False by simp
  qed
  moreover have "\<not> k < ?L"
  proof
    assume "k < ?L"
    then have "k \<le> ?L - 1" by simp
    then have "(10::nat) ^ k \<le> 10 ^ (?L - 1)" by (intro power_increasing) auto
    then have "10 ^ k \<le> s" using b(1) by (rule le_trans)
    with assms(2) show False by simp
  qed
  ultimately show ?thesis by simp
qed

lemma parseExponent_Nil: "parseExponent [] = 0"
  by (simp add: parseExponent_def)

lemma span_digits_end:
  "takeWhile isDecimalDigit (digits_of j) = digits_of j"
  using digits_of_decimal by (simp add: takeWhile_eq_all_conv)

lemma parseExponent_plus: "parseExponent (''e'' @ ''+'' @ digits_of j) = int j"
  by (simp add: parseExponent_def Let_def span_digits_end digits_of_ne radixValue_digits_of)

lemma parseExponent_minus: "parseExponent (''e'' @ ''-'' @ digits_of j) = - int j"
  by (simp add: parseExponent_def Let_def span_digits_end digits_of_ne radixValue_digits_of)

lemma parseExponent_signed:
  "parseExponent (''e'' @ (if e < 0 then ''-'' else ''+'') @ digits_of (nat \<bar>e\<bar>)) = e"
  using parseExponent_plus [of "nat \<bar>e\<bar>"] parseExponent_minus [of "nat \<bar>e\<bar>"]
  by (cases "e < 0") simp_all


text \<open>Digits, then something that is neither a digit nor a point.\<close>

lemma parse_integer_part:
  assumes "\<forall>c \<in> set ip. isDecimalDigit c" "ip \<noteq> []"
    and "r2 = [] \<or> (\<not> isDecimalDigit (hd r2) \<and> hd r2 \<noteq> CHR ''.'')"
  shows "parseUnsignedDecimal (ip @ r2) = Some (scale10 (real (radixValue 10 ip)) (parseExponent r2))"
proof -
  have r: "r2 = [] \<or> \<not> isDecimalDigit (hd r2)" using assms(3) by blast
  have nodot: "(r2 \<noteq> [] \<and> hd r2 = CHR ''.'') = False" using assms(3) by blast
  show ?thesis
    unfolding parseUnsignedDecimal_def Let_def span_digits [OF assms(1) r] nodot if_False
    using assms(2) by (simp add: radixValue_def)
qed

lemma parse_with_point:
  assumes "\<forall>c \<in> set ip. isDecimalDigit c" "\<forall>c \<in> set fp. isDecimalDigit c" "ip \<noteq> []"
    and "r2 = [] \<or> \<not> isDecimalDigit (hd r2)"
  shows "parseUnsignedDecimal (ip @ ''.'' @ fp @ r2)
       = Some (scale10 (real (radixValue 10 ip) + real (radixValue 10 fp) / 10 ^ length fp) (parseExponent r2))"
proof -
  have d: "''.'' @ fp @ r2 = [] \<or> \<not> isDecimalDigit (hd (''.'' @ fp @ r2))"
    by (simp add: isDecimalDigit_def)
  show ?thesis
    unfolding parseUnsignedDecimal_def Let_def span_digits [OF assms(1) d]
    using assms(3) by (simp add: span_digits [OF assms(2,4)])
qed

lemma scale10_zero [simp]: "scale10 x 0 = x"
  by (simp add: scale10_def)

lemma scale10_divide: "scale10 (x / 10 ^ j) e = scale10 x (e - int j)"
  by (simp add: scale10_powi power_int_diff)

lemma scale10_divide_eq:
  assumes "e - int j = t"
  shows "scale10 (x / 10 ^ j) e = scale10 x t"
  using assms scale10_divide by simp

lemma split_digits:
  assumes "\<forall>c \<in> set ds. isDecimalDigit c"
  shows "real (radixValue 10 (take j ds)) + real (radixValue 10 (drop j ds)) / 10 ^ length (drop j ds)
       = real (radixValue 10 ds) / 10 ^ length (drop j ds)"
proof -
  have "\<forall>c \<in> set (drop j ds). isDecimalDigit c" using assms by (meson in_set_dropD)
  from radixValue_append [OF this, of "take j ds"]
  have "radixValue 10 ds = radixValue 10 (take j ds) * 10 ^ length (drop j ds) + radixValue 10 (drop j ds)"
    by simp
  then have "real (radixValue 10 ds)
      = real (radixValue 10 (take j ds)) * 10 ^ length (drop j ds) + real (radixValue 10 (drop j ds))"
    by (metis of_nat_add of_nat_mult of_nat_numeral of_nat_power)
  then show ?thesis by (simp add: field_simps)
qed

lemma exponent_tail:
  "parseExponent (''e'' @ (if e < 0 then ''-'' else ''+'') @ digits_of (nat \<bar>e\<bar>)) = e"
  "''e'' @ (if e < 0 then ''-'' else ''+'') @ digits_of (nat \<bar>e\<bar>) = []
     \<or> (\<not> isDecimalDigit (hd (''e'' @ (if e < 0 then ''-'' else ''+'') @ digits_of (nat \<bar>e\<bar>)))
         \<and> hd (''e'' @ (if e < 0 then ''-'' else ''+'') @ digits_of (nat \<bar>e\<bar>)) \<noteq> CHR ''.'')"
  by (rule parseExponent_signed) (simp add: isDecimalDigit_def)

lemma parse_format_number:
  assumes "1 \<le> k" "10 ^ (k - 1) \<le> s" "s < 10 ^ k"
  shows "parseUnsignedDecimal (format_number n k s) = Some (scale10 (real s) (n - int k))"
proof -
  let ?ds = "digits_of s"
  have len: "length ?ds = k" by (rule length_digits_of_eq [OF assms(2,3,1)])
  have dig: "\<forall>c \<in> set ?ds. isDecimalDigit c" by (rule digits_of_decimal)
  have val: "radixValue 10 ?ds = s" by (rule radixValue_digits_of)
  show ?thesis
  proof (cases "- 5 \<le> n \<and> n \<le> 21")
    case plain: True
    consider "int k \<le> n" | "0 < n" "n < int k" | "n \<le> 0" by linarith
    then show ?thesis
    proof cases
      case 1
      let ?j = "nat (n - int k)"
      let ?ip = "?ds @ replicate ?j CHR ''0''"
      have f: "format_number n k s = ?ip @ []"
        using plain 1 by (simp add: format_number_def Let_def)
      have d: "\<forall>c \<in> set ?ip. isDecimalDigit c" using dig zero_digit(1) by auto
      have ne: "?ip \<noteq> []" using digits_of_ne by simp
      have z: "\<forall>c \<in> set (replicate ?j CHR ''0''). isDecimalDigit c" using zero_digit(1) by simp
      have v: "radixValue 10 ?ip = s * 10 ^ ?j"
        by (simp add: radixValue_append [OF z] val radixValue_zeros)
      have "parseUnsignedDecimal (?ip @ []) = Some (scale10 (real (radixValue 10 ?ip)) (parseExponent []))"
        by (rule parse_integer_part [OF d ne]) simp
      then show ?thesis
        unfolding f v parseExponent_Nil using 1 by (simp add: scale10_def)
    next
      case 2
      let ?j = "nat n"
      have jk: "?j < k" "0 < ?j" using 2 by simp_all
      have f: "format_number n k s = take ?j ?ds @ ''.'' @ drop ?j ?ds @ []"
        using plain 2 by (simp add: format_number_def Let_def)
      have d1: "\<forall>c \<in> set (take ?j ?ds). isDecimalDigit c" using dig by (meson in_set_takeD)
      have d2: "\<forall>c \<in> set (drop ?j ?ds). isDecimalDigit c" using dig by (meson in_set_dropD)
      have ne: "take ?j ?ds \<noteq> []" using jk len digits_of_ne by (cases ?ds) (auto simp: take_Cons')
      have l: "length (drop ?j ?ds) = k - ?j" using len by simp
      have "parseUnsignedDecimal (take ?j ?ds @ ''.'' @ drop ?j ?ds @ [])
          = Some (scale10 (real (radixValue 10 (take ?j ?ds))
                + real (radixValue 10 (drop ?j ?ds)) / 10 ^ length (drop ?j ?ds)) (parseExponent []))"
        by (rule parse_with_point [OF d1 d2 ne]) simp
      also have "\<dots> = Some (scale10 (real s / 10 ^ (k - ?j)) 0)"
        unfolding l split_digits [OF dig, of ?j, unfolded val l] parseExponent_Nil ..
      also have "scale10 (real s / 10 ^ (k - ?j)) 0 = scale10 (real s) (n - int k)"
        using jk 2 by (intro scale10_divide_eq) simp
      finally show ?thesis unfolding f .
    next
      case 3
      let ?j = "nat (- n)"
      let ?fp = "replicate ?j CHR ''0'' @ ?ds"
      have f: "format_number n k s = ''0'' @ ''.'' @ ?fp @ []"
        using plain 3 assms(1) by (simp add: format_number_def Let_def)
      have d1: "\<forall>c \<in> set ''0''. isDecimalDigit c" using zero_digit(1) by simp
      have d2: "\<forall>c \<in> set ?fp. isDecimalDigit c" using dig zero_digit(1) by auto
      have v: "radixValue 10 ?fp = s"
        by (simp add: radixValue_append [OF dig] val radixValue_zeros)
      have v0: "radixValue 10 ''0'' = 0" by (simp add: radixValue_def zero_digit)
      have "parseUnsignedDecimal (''0'' @ ''.'' @ ?fp @ [])
          = Some (scale10 (real (radixValue 10 ''0'') + real (radixValue 10 ?fp) / 10 ^ length ?fp) (parseExponent []))"
        by (rule parse_with_point [OF d1 d2]) simp_all
      also have "\<dots> = Some (scale10 (real s / 10 ^ (?j + k)) 0)"
        unfolding v v0 parseExponent_Nil by (simp add: len)
      also have "scale10 (real s / 10 ^ (?j + k)) 0 = scale10 (real s) (n - int k)"
        using 3 by (intro scale10_divide_eq) simp
      finally show ?thesis unfolding f .
    qed
  next
    case sci: False
    from sci have c: "(- 5 \<le> n \<and> n \<le> 21) = False" by simp
    let ?e = "n - 1"
    let ?tail = "''e'' @ (if ?e < 0 then ''-'' else ''+'') @ digits_of (nat \<bar>?e\<bar>)"
    show ?thesis
    proof (cases "k = 1")
      case True
      have f: "format_number n k s = ?ds @ ?tail"
        unfolding format_number_def Let_def c if_False using True by simp
      have "parseUnsignedDecimal (?ds @ ?tail) = Some (scale10 (real (radixValue 10 ?ds)) (parseExponent ?tail))"
        by (rule parse_integer_part [OF dig digits_of_ne exponent_tail(2)])
      then show ?thesis unfolding f val exponent_tail(1) using True by simp
    next
      case False
      with assms(1) have k: "1 < k" by simp
      have f: "format_number n k s = take 1 ?ds @ ''.'' @ drop 1 ?ds @ ?tail"
        unfolding format_number_def Let_def c if_False using False by simp
      have d1: "\<forall>c \<in> set (take 1 ?ds). isDecimalDigit c" using dig by (meson in_set_takeD)
      have d2: "\<forall>c \<in> set (drop 1 ?ds). isDecimalDigit c" using dig by (meson in_set_dropD)
      have ne: "take 1 ?ds \<noteq> []" using digits_of_ne by (cases ?ds) auto
      have l: "length (drop 1 ?ds) = k - 1" using len by simp
      have t: "?tail = [] \<or> \<not> isDecimalDigit (hd ?tail)" using exponent_tail(2) by blast
      have "parseUnsignedDecimal (take 1 ?ds @ ''.'' @ drop 1 ?ds @ ?tail)
          = Some (scale10 (real (radixValue 10 (take 1 ?ds))
                + real (radixValue 10 (drop 1 ?ds)) / 10 ^ length (drop 1 ?ds)) (parseExponent ?tail))"
        by (rule parse_with_point [OF d1 d2 ne t])
      also have "\<dots> = Some (scale10 (real s / 10 ^ (k - 1)) ?e)"
        unfolding l split_digits [OF dig, of 1, unfolded val l] exponent_tail(1) ..
      also have "scale10 (real s / 10 ^ (k - 1)) ?e = scale10 (real s) (n - int k)"
        using k by (intro scale10_divide_eq) simp
      finally show ?thesis unfolding f .
    qed
  qed
qed

lemma format_number_head:
  "format_number n k s \<noteq> [] \<and> isDecimalDigit (hd (format_number n k s))"
proof -
  obtain c cs where ds: "digits_of s = c # cs" using digits_of_ne [of s] by (cases "digits_of s") auto
  have c: "isDecimalDigit c" using digits_of_decimal [of s] ds by simp
  show ?thesis
    using c zero_digit(1) by (auto simp add: format_number_def Let_def ds take_Cons')
qed

lemma parseFloat_format_number:
  assumes "1 \<le> k" "10 ^ (k - 1) \<le> s" "s < 10 ^ k"
  shows "parseFloat (format_number n k s) = RoundMVResult (scale10 (real s) (n - int k))"
    and "parseFloat (CHR ''-'' # format_number n k s) = negate (RoundMVResult (scale10 (real s) (n - int k)))"
proof -
  let ?str = "format_number n k s"
  from format_number_head [of n k s] obtain c cs where str: "?str = c # cs" and c: "isDecimalDigit c"
    by (cases ?str) auto
  have nw: "\<not> isWhiteSpace c" "c \<noteq> CHR ''-''" "c \<noteq> CHR ''+''" "c \<noteq> CHR ''I''"
    using c by (auto simp: isDecimalDigit_def isWhiteSpace_def)
  have p: "parseUnsignedDecimal (c # cs) = Some (scale10 (real s) (n - int k))"
    using parse_format_number [OF assms, of n] unfolding str .
  show "parseFloat ?str = RoundMVResult (scale10 (real s) (n - int k))"
    unfolding str using nw by (simp add: parseFloat_def Let_def p)
  show "parseFloat (CHR ''-'' # ?str) = negate (RoundMVResult (scale10 (real s) (n - int k)))"
    unfolding str using nw by (simp add: parseFloat_def Let_def p isWhiteSpace_def)
qed

lemma parseFloat_Number_toString_double:
  assumes "Number_toString_double x str"
  shows "str \<noteq> [] \<and> parseFloat str = Finite x"
proof -
  consider "x = 0" | "x < 0" | "0 < x" by linarith
  then show ?thesis
  proof cases
    case 1
    with assms have "str = ''0''" by (simp add: Number_toString_double_def)
    moreover have "parseFloat ''0'' = Finite 0"
      by (simp add: parseFloat_def parseUnsignedDecimal_def parseExponent_def isWhiteSpace_def
          isDecimalDigit_def radixValue_def digitValue_def RoundMVResult_def Let_def)
    ultimately show ?thesis using 1 by simp
  next
    case 2
    with assms obtain n k s where d: "shortest_digits (- x) n k s" and str: "str = CHR ''-'' # format_number n k s"
      by (auto simp: Number_toString_double_def)
    from d have "digits_for (- x) n k s" by (simp add: shortest_digits_def)
    then have b: "1 \<le> k" "10 ^ (k - 1) \<le> s" "s < 10 ^ k"
      and r: "RoundMVResult (scale10 (real s) (n - int k)) = Finite (- x)"
      by (simp_all add: digits_for_def)
    show ?thesis unfolding str parseFloat_format_number(2) [OF b] r by simp
  next
    case 3
    with assms obtain n k s where d: "shortest_digits x n k s" and str: "str = format_number n k s"
      by (auto simp: Number_toString_double_def)
    from d have "digits_for x n k s" by (simp add: shortest_digits_def)
    then have b: "1 \<le> k" "10 ^ (k - 1) \<le> s" "s < 10 ^ k"
      and r: "RoundMVResult (scale10 (real s) (n - int k)) = Finite x"
      by (simp_all add: digits_for_def)
    show ?thesis unfolding str parseFloat_format_number(1) [OF b] r
      using format_number_head by simp
  qed
qed

section \<open>Persistence failures\<close>

lemma checkAccess_unavailable: "\<not> available ls \<Longrightarrow> \<not> checkAccess ls now"
  by (simp add: checkAccess_def getItem_def)

lemma checkAccess_absent: "items ls ''access_granted'' = None \<Longrightarrow> \<not> checkAccess ls now"
  by (simp add: checkAccess_def getItem_def)

lemma checkAccess_corrupt:
  "items ls ''access_granted'' = Some v \<Longrightarrow> parseInt v = None \<Longrightarrow> \<not> checkAccess ls now"
  by (simp add: checkAccess_def getItem_def)

lemma parseFloat_abc: "parseFloat ''abc'' = NaN"
  by (simp add: parseFloat_def parseUnsignedDecimal_def isWhiteSpace_def isDecimalDigit_def Let_def)

lemma parseInt_abc: "parseInt ''abc'' = None"
  by (simp add: parseInt_def parseDigits_def isWhiteSpace_def isRadixDigit_def digitValue_def Let_def)

lemma parseFloat_125: "parseFloat ''125.5'' = Finite 125.5"
proof -
  have "(125.5 :: real) = real_of_int 251 * 2 powi (- 1)" by simp
  then have "is_double 125.5"
    unfolding is_double_def by (intro exI [of _ 251] exI [of _ "- 1"]) simp
  from RoundMVResult_double [OF this] have r: "RoundMVResult (251 / 2) = Finite (251 / 2)" by simp
  show ?thesis
    by (simp add: parseFloat_def parseUnsignedDecimal_def parseExponent_def scale10_def radixValue_def
        digitValue_def isWhiteSpace_def isDecimalDigit_def Let_def r)
qed

lemma parseFloat_1e400: "parseFloat ''1e400'' = PosInfinity"
  by (simp add: parseFloat_def parseUnsignedDecimal_def parseExponent_def scale10_def radixValue_def
        digitValue_def isWhiteSpace_def isDecimalDigit_def Let_def RoundMVResult_def)

text \<open>A saved value beyond the range of doubles parses to infinity, and the assignment throws.\<close>

lemma load_saved_progress_overflow:
  assumes "videoRef p = Some video" "available (storage p)"
    and "items (storage p) (progress_key (url p)) = Some ''1e400''"
  shows "load_saved_progress p = Throw TypeError p"
  using assms by (simp add: load_saved_progress_def getItem_def set_currentTime_def parseFloat_1e400)

text \<open>
  Claim C9, as amended. When the read of the store throws, and when the stored grant does
  not parse as a number, \<^verbatim>\<open>checkAccess\<close> answers false, as it does with no grant
  stored; it always returns. When the player mounts over a readable store, no saved
  progress leaves the player as it is, and a saved value that parses to a finite number
  becomes the position of the media element.
\<close>

theorem persistence_failures:
  "(\<not> available ls \<longrightarrow> \<not> checkAccess ls now)
   \<and> (items ls ''access_granted'' = Some v \<and> parseInt v = None \<longrightarrow> \<not> checkAccess ls now)
   \<and> (items ls ''access_granted'' = None \<longrightarrow> \<not> checkAccess ls now)
   \<and> (videoRef p = Some video \<and> available (storage p)
        \<and> items (storage p) (progress_key (url p)) = None \<longrightarrow>
        load_saved_progress p = Normal p)
   \<and> (videoRef p = Some video \<and> available (storage p)
        \<and> items (storage p) (progress_key (url p)) = Some w \<and> w \<noteq> [] \<and> parseFloat w = Finite x \<longrightarrow>
        load_saved_progress p = Normal (p\<lparr>videoRef := Some (video\<lparr>video_currentTime := x\<rparr>)\<rparr>))"
  using checkAccess_unavailable [of ls now] checkAccess_corrupt [of ls v now] checkAccess_absent [of ls now]
  by (simp add: load_saved_progress_def getItem_def set_currentTime_def)

theorem persistence_failures_witness:
  "\<not> checkAccess blocked_store 5000
   \<and> \<not> checkAccess \<lparr>items = [''access_granted'' \<mapsto> ''abc''], available = True, setItem_log = []\<rparr> 5000
   \<and> \<not> checkAccess empty_store 5000
   \<and> load_saved_progress lecture_player = Normal lecture_player
   \<and> load_saved_progress
         (lecture_player\<lparr>storage := \<lparr>items = [progress_key ''https://example.com/lecture1.m3u8'' \<mapsto> ''125.5''],
                                       available = True, setItem_log = []\<rparr>\<rparr>)
       = Normal (lecture_player\<lparr>storage := \<lparr>items = [progress_key ''https://example.com/lecture1.m3u8'' \<mapsto> ''125.5''],
                                       available = True, setItem_log = []\<rparr>,
                                 videoRef := Some \<lparr>video_currentTime = 125.5\<rparr>\<rparr>)"
  using persistence_failures [of blocked_store 5000 "''abc''" lecture_player "\<lparr>video_currentTime = 0\<rparr>" "''125.5''" "125.5"]
    persistence_failures [of "\<lparr>items = [''access_granted'' \<mapsto> ''abc''], available = True, setItem_log = []\<rparr>" 5000 "''abc''"
       "lecture_player\<lparr>storage := \<lparr>items = [progress_key ''https://example.com/lecture1.m3u8'' \<mapsto> ''125.5''],
                                       available = True, setItem_log = []\<rparr>\<rparr>"
       "\<lparr>video_currentTime = 0\<rparr>" "''125.5''" "125.5"]
    persistence_failures [of empty_store 5000 "''abc''" lecture_player "\<lparr>video_currentTime = 0\<rparr>" "''125.5''" "125.5"]
    parseInt_abc parseFloat_125
  by simp

text \<open>
  The claim as stated fails on the player: the mount effect reads the store and assigns
  the parsed value outside any \<^verbatim>\<open>try\<close>, so a blocked store and a saved value that is
  not a number both throw out of the effect.
\<close>

theorem progress_restore_throws:
  "load_saved_progress blocked_player = Throw SecurityError blocked_player
   \<and> load_saved_progress corrupt_player = Throw TypeError corrupt_player"
  by (simp add: load_saved_progress_def getItem_def set_currentTime_def parseFloat_abc)

section \<open>Round trip of the saved progress\<close>

lemma handleTimeUpdate_stores:
  assumes "videoRef p = Some video" "available (storage p)" "\<lfloor>video_currentTime video\<rfloor> mod 5 = 0"
  shows "available (storage (state_of (handleTimeUpdate toString p)))"
    and "items (storage (state_of (handleTimeUpdate toString p))) (progress_key (url p))
           = Some (toString (video_currentTime video))"
  using assms by (simp_all add: handleTimeUpdate_def setItem_def Let_def)

lemma load_saved_progress_restores:
  assumes "videoRef p = Some video" "available (storage p)"
    and "items (storage p) (progress_key (url p)) = Some str" "Number_toString_double x str"
  shows "load_saved_progress p = Normal (p\<lparr>videoRef := Some (video\<lparr>video_currentTime := x\<rparr>)\<rparr>)"
  using assms(1-3) parseFloat_Number_toString_double [OF assms(4)]
  by (simp add: load_saved_progress_def getItem_def set_currentTime_def)

lemma is_double_examples: "is_double (21 / 4)" "is_double 0"
proof -
  have "(21 / 4 :: real) = real_of_int 21 * 2 powi (- 2)" by (simp add: power_int_minus)
  then show "is_double (21 / 4)"
    unfolding is_double_def by (intro exI [of _ 21] exI [of _ "- 2"]) simp
  show "is_double 0"
    unfolding is_double_def by (intro exI [of _ 0] exI [of _ 0]) simp
qed

text \<open>
  Claim C10. Every finite double \<open>x\<close> has a string under
  \<^verbatim>\<open>Number.prototype.toString\<close>, and \<^verbatim>\<open>parseFloat\<close> of any such string is \<open>x\<close>
  again. Hence a player that mounts over a readable store holding such a string under
  the key of its video takes \<open>x\<close> as position; and when \<^verbatim>\<open>handleTimeUpdate\<close> has
  written the position \<open>x\<close> (the floor of \<open>x\<close> a multiple of 5, the store accepting the
  write, \<open>toString\<close> giving a string of \<open>x\<close>), a player of the same address mounted over
  the resulting store is at \<open>x\<close> exactly.
\<close>

theorem progress_round_trip:
  assumes "is_double x"
  shows "(\<exists>str. Number_toString_double x str)
       \<and> (Number_toString_double x str \<longrightarrow> parseFloat str = Finite x)
       \<and> (Number_toString_double x str \<and> videoRef p' = Some video' \<and> available (storage p')
            \<and> items (storage p') (progress_key (url p')) = Some str \<longrightarrow>
            load_saved_progress p' = Normal (p'\<lparr>videoRef := Some (video'\<lparr>video_currentTime := x\<rparr>)\<rparr>))
       \<and> (Number_toString_double x (toString x)
            \<and> videoRef p = Some video \<and> video_currentTime video = x \<and> \<lfloor>x\<rfloor> mod 5 = 0
            \<and> available (storage p)
            \<and> videoRef p' = Some video' \<and> url p' = url p
            \<and> storage p' = storage (state_of (handleTimeUpdate toString p)) \<longrightarrow>
            load_saved_progress p' = Normal (p'\<lparr>videoRef := Some (video'\<lparr>video_currentTime := x\<rparr>)\<rparr>))"
proof (intro conjI impI)
  show "\<exists>str. Number_toString_double x str"
    by (rule Number_toString_double_exists [OF assms])
next
  assume "Number_toString_double x str"
  then show "parseFloat str = Finite x"
    using parseFloat_Number_toString_double by blast
next
  assume "Number_toString_double x str \<and> videoRef p' = Some video' \<and> available (storage p')
            \<and> items (storage p') (progress_key (url p')) = Some str"
  then show "load_saved_progress p' = Normal (p'\<lparr>videoRef := Some (video'\<lparr>video_currentTime := x\<rparr>)\<rparr>)"
    using load_saved_progress_restores by blast
next
  assume a: "Number_toString_double x (toString x)
            \<and> videoRef p = Some video \<and> video_currentTime video = x \<and> \<lfloor>x\<rfloor> mod 5 = 0
            \<and> available (storage p)
            \<and> videoRef p' = Some video' \<and> url p' = url p
            \<and> storage p' = storage (state_of (handleTimeUpdate toString p))"
  then have g: "\<lfloor>video_currentTime video\<rfloor> mod 5 = 0" by simp
  from a have v: "videoRef p = Some video" and av: "available (storage p)" by simp_all
  from handleTimeUpdate_stores [OF v av g, of toString] a
  have "available (storage p')" "items (storage p') (progress_key (url p')) = Some (toString x)"
    by simp_all
  with a show "load_saved_progress p' = Normal (p'\<lparr>videoRef := Some (video'\<lparr>video_currentTime := x\<rparr>)\<rparr>)"
    using load_saved_progress_restores by blast
qed

theorem progress_round_trip_witness:
  "is_double (21 / 4)
   \<and> (\<exists>str. Number_toString_double (21 / 4) str \<and> parseFloat str = Finite (21 / 4))
   \<and> is_double 0 \<and> Number_toString_double 0 (toString_hundredths 0)
   \<and> load_saved_progress (lecture_player\<lparr>storage := storage (state_of (handleTimeUpdate toString_hundredths lecture_player))\<rparr>)
       = Normal (lecture_player\<lparr>storage := storage (state_of (handleTimeUpdate toString_hundredths lecture_player)),
                                videoRef := Some \<lparr>video_currentTime = 0\<rparr>\<rparr>)"
proof -
  have s0: "toString_hundredths 0 = ''0''"
    by (simp add: toString_hundredths_def digits_of.simps digit_char_def Let_def)
  have t0: "Number_toString_double 0 (toString_hundredths 0)"
    by (simp add: Number_toString_double_def s0)
  from progress_round_trip [OF is_double_examples(1)] obtain str
    where "Number_toString_double (21 / 4) str" by blast
  with progress_round_trip [OF is_double_examples(1), of str]
  have a: "\<exists>str. Number_toString_double (21 / 4) str \<and> parseFloat str = Finite (21 / 4)" by blast
  have b: "load_saved_progress (lecture_player\<lparr>storage := storage (state_of (handleTimeUpdate toString_hundredths lecture_player))\<rparr>)
       = Normal (lecture_player\<lparr>storage := storage (state_of (handleTimeUpdate toString_hundredths lecture_player)),
                                videoRef := Some \<lparr>video_currentTime = 0\<rparr>\<rparr>)"
    using progress_round_trip [OF is_double_examples(2), of "''0''"
        "lecture_player\<lparr>storage := storage (state_of (handleTimeUpdate toString_hundredths lecture_player))\<rparr>"
        "\<lparr>video_currentTime = 0\<rparr>" toString_hundredths lecture_player "\<lparr>video_currentTime = 0\<rparr>"] t0
    by simp
  from a b t0 is_double_examples show ?thesis by blast
qed

end
